theory Spec2Isabelle
  imports Main
begin

section \<open>Window store and tool handlers\<close>

text \<open>
  The tool handlers (\<open>createNewWindow\<close>, \<open>domReplace\<close>, \<open>updateWindowTitle\<close>) close over
  a handful of mutable maps and over the list of canvas nodes. The model passes that
  state explicitly. JavaScript strings are modelled as \<open>string\<close>; a \<open>Map\<close> that is only
  read with \<open>has\<close>/\<open>get\<close> and written with \<open>set\<close>/\<open>delete\<close> is a partial function.
  The node list is React state, changed by handing \<open>setNodes\<close> an updater. React runs
  the updater during the call only when the component has no update pending; otherwise it
  queues the updater and runs it before the next render, after the handler has returned.
  The field \<open>updatePending\<close> says which of the two holds when a handler is called; the
  environment resets it when it renders. The field \<open>nodes\<close> is the node list with every
  updater handed over so far applied, which is what the next render shows. What a handler
  reads right after \<open>setNodes\<close> from variables its updater assigns is only there when the
  updater ran during the call.
\<close>

datatype insert_position = Beforebegin | Afterbegin | Beforeend | Afterend

datatype DomMutation =
    Set_text string string
  | Set_html string string
  | Replace_with_html string string
  | Insert_html string insert_position string
  | Set_attr string string string
  | Remove_attr string string
  | Add_class string string
  | Remove_class string string
  | Remove_el string

fun action :: "DomMutation \<Rightarrow> string" where
  "action (Set_text _ _) = ''set_text''"
| "action (Set_html _ _) = ''set_html''"
| "action (Replace_with_html _ _) = ''replace_with_html''"
| "action (Insert_html _ _ _) = ''insert_html''"
| "action (Set_attr _ _ _) = ''set_attr''"
| "action (Remove_attr _ _) = ''remove_attr''"
| "action (Add_class _ _) = ''add_class''"
| "action (Remove_class _ _) = ''remove_class''"
| "action (Remove_el _) = ''remove''"

fun selector :: "DomMutation \<Rightarrow> string" where
  "selector (Set_text s _) = s"
| "selector (Set_html s _) = s"
| "selector (Replace_with_html s _) = s"
| "selector (Insert_html s _ _) = s"
| "selector (Set_attr s _ _) = s"
| "selector (Remove_attr s _) = s"
| "selector (Add_class s _) = s"
| "selector (Remove_class s _) = s"
| "selector (Remove_el s) = s"

record mutation_detail =
  d_action :: string
  d_selector :: string
  matched :: nat
  applied :: nat
  d_error :: "string option"

record mutation_totals =
  totalMutations :: nat
  totalTargets :: nat
  totalApplied :: nat
  failed :: nat

record DomReplaceResult =
  dr_status :: string
  dr_windowId :: string
  dr_html :: string
  totals :: mutation_totals
  details :: "mutation_detail list"

record UpdateTitleResult =
  ut_status :: string
  ut_windowId :: string
  ut_title :: string

text \<open>
  The browser's document object model is not part of the repository. It enters as a
  parameter: how markup is parsed, how a document serialises, which elements a selector
  matches (a malformed selector throws), and what one element-level edit does to the
  document. An element-level edit returns the document it leaves behind and, when it
  throws, the message of the exception.
\<close>

record ('doc, 'el) dom_api =
  parseFromString :: "string \<Rightarrow> 'doc"
  outerHTML :: "'doc \<Rightarrow> string option"
  querySelectorAll :: "'doc \<Rightarrow> string \<Rightarrow> string + 'el list"
  element_effect :: "DomMutation \<Rightarrow> 'el \<Rightarrow> 'doc \<Rightarrow> 'doc \<times> string option"

record canvas_node =
  nid :: string
  html :: string
  title :: string
  selected :: bool
  zIndex :: nat
  rect :: "int \<times> int \<times> int \<times> int"

record 'doc host =
  nameToNodeId :: "string \<rightharpoonup> string"
  nodeIdToName :: "string \<rightharpoonup> string"
  windowIdToNodeId :: "string \<rightharpoonup> string"
  nodeIdToWindowId :: "string \<rightharpoonup> string"
  provisionalNameToNodeId :: "string \<rightharpoonup> string"
  liveIframeDoc :: "string \<rightharpoonup> 'doc"
  iframeUpdateQueue :: "string set"
  createSequence :: nat
  nodes :: "canvas_node list"
  focusedWindowId :: "string option"
  draws :: nat
  updatePending :: bool

definition doctype :: string where
  "doctype = ''<!DOCTYPE html>''"

definition blank_document :: string where
  "blank_document =
     ''<!DOCTYPE html><html><head><meta charset=\"utf-8\"></head><body></body></html>''"

definition serialize :: "('doc, 'el) dom_api \<Rightarrow> 'doc \<Rightarrow> string" where
  "serialize D doc = doctype @ (case outerHTML D doc of Some h \<Rightarrow> h | None \<Rightarrow> [])"

definition getLiveIframeHtml :: "('doc, 'el) dom_api \<Rightarrow> 'doc host \<Rightarrow> string \<Rightarrow> string option" where
  "getLiveIframeHtml D st nodeId =
     (case liveIframeDoc st nodeId of
        None \<Rightarrow> None
      | Some doc \<Rightarrow> (case outerHTML D doc of None \<Rightarrow> None | Some h \<Rightarrow> Some (doctype @ h)))"

subsection \<open>The mutation executor\<close>

text \<open>
  \<open>apply_elements\<close> is the inner \<open>for (const el of list)\<close> loop with its counter; an
  exception leaves the loop with the document as edited so far.
\<close>

fun apply_elements ::
  "('doc, 'el) dom_api \<Rightarrow> DomMutation \<Rightarrow> 'el list \<Rightarrow> 'doc \<Rightarrow> nat \<Rightarrow> 'doc \<times> (string + nat)" where
  "apply_elements D m [] doc appliedCount = (doc, Inr appliedCount)"
| "apply_elements D m (el # els) doc appliedCount =
     (case element_effect D m el doc of
        (doc', Some err) \<Rightarrow> (doc', Inl err)
      | (doc', None) \<Rightarrow> apply_elements D m els doc' (appliedCount + 1))"

text \<open>
  The body of the \<open>try\<close> for one mutation: the document it leaves and either the thrown
  message or the pair (matched, applied).
\<close>

definition mutation_outcome ::
  "('doc, 'el) dom_api \<Rightarrow> 'doc \<Rightarrow> DomMutation \<Rightarrow> 'doc \<times> (string + nat \<times> nat)" where
  "mutation_outcome D doc m =
     (case querySelectorAll D doc (selector m) of
        Inl err \<Rightarrow> (doc, Inl err)
      | Inr list \<Rightarrow>
          (case apply_elements D m list doc 0 of
             (doc', Inl err) \<Rightarrow> (doc', Inl err)
           | (doc', Inr appliedCount) \<Rightarrow> (doc', Inr (length list, appliedCount))))"

text \<open>
  One iteration of \<open>for (const m of muts)\<close>: the counters \<open>totalTargets\<close> and
  \<open>totalApplied\<close> move only when the \<open>try\<close> block runs to its end; the \<open>catch\<close> records
  a detail with no match, no application and the message.
\<close>

definition applyMutation ::
  "('doc, 'el) dom_api \<Rightarrow> DomMutation \<Rightarrow> 'doc \<times> nat \<times> nat
     \<Rightarrow> ('doc \<times> nat \<times> nat) \<times> mutation_detail" where
  "applyMutation D m acc =
     (case acc of (doc, tTargets, tApplied) \<Rightarrow>
        (case mutation_outcome D doc m of
           (doc', Inr (n, appliedCount)) \<Rightarrow>
             ((doc', tTargets + n, tApplied + appliedCount),
              \<lparr>d_action = action m, d_selector = selector m, matched = n,
                applied = appliedCount, d_error = None\<rparr>)
         | (doc', Inl err) \<Rightarrow>
             ((doc', tTargets, tApplied),
              \<lparr>d_action = action m, d_selector = selector m, matched = 0,
                applied = 0, d_error = Some err\<rparr>)))"

fun applyMutations ::
  "('doc, 'el) dom_api \<Rightarrow> DomMutation list \<Rightarrow> 'doc \<times> nat \<times> nat
     \<Rightarrow> ('doc \<times> nat \<times> nat) \<times> mutation_detail list" where
  "applyMutations D [] acc = (acc, [])"
| "applyMutations D (m # muts) acc =
     (case applyMutation D m acc of
        (acc', d) \<Rightarrow> (case applyMutations D muts acc' of (acc'', ds) \<Rightarrow> (acc'', d # ds)))"

definition failed_count :: "DomMutation list \<Rightarrow> mutation_detail list \<Rightarrow> nat" where
  "failed_count mutations ds = length mutations - length (filter (\<lambda>d. applied d > 0) ds)"

subsection \<open>domReplace\<close>

text \<open>
  The accumulator of the \<open>setNodes\<close> updater: the variables \<open>details\<close>, \<open>totalTargets\<close>,
  \<open>totalApplied\<close> and \<open>finalHtml\<close> that the updater assigns for the node it edits.
  \<open>domReplace\<close> declares them as \<open>[]\<close>, \<open>0\<close>, \<open>0\<close> and \<open>''\<close>, hands the updater to
  \<open>setNodes\<close> and builds its result from them in the next statement: it sees the
  updater's values when the updater ran during the call, and the initial values when the
  updater was queued.
\<close>

type_synonym replace_acc = "mutation_detail list \<times> nat \<times> nat \<times> string"

fun domReplace_nodes ::
  "('doc, 'el) dom_api \<Rightarrow> 'doc host \<Rightarrow> string \<Rightarrow> DomMutation list \<Rightarrow> canvas_node list
     \<Rightarrow> replace_acc \<Rightarrow> canvas_node list \<times> replace_acc" where
  "domReplace_nodes D st nodeId mutations [] acc = ([], acc)"
| "domReplace_nodes D st nodeId mutations (n # nds) acc =
     (if nid n \<noteq> nodeId then
        (case domReplace_nodes D st nodeId mutations nds acc of
           (nds', acc') \<Rightarrow> (n # nds', acc'))
      else
        (case acc of (ds, tTargets, tApplied, fin) \<Rightarrow>
           let currentHtml = (case getLiveIframeHtml D st nodeId of
                                Some live \<Rightarrow> live | None \<Rightarrow> html n);
               doc = parseFromString D (if currentHtml = [] then blank_document else currentHtml)
           in (case applyMutations D mutations (doc, tTargets, tApplied) of
                 ((doc', tTargets', tApplied'), localDetails) \<Rightarrow>
                   let finalHtml = serialize D doc'
                   in (case domReplace_nodes D st nodeId mutations nds
                              (localDetails, tTargets', tApplied', finalHtml) of
                         (nds', acc') \<Rightarrow> (n\<lparr>html := finalHtml\<rparr> # nds', acc')))))"

definition domReplace ::
  "('doc, 'el) dom_api \<Rightarrow> 'doc host \<Rightarrow> string \<Rightarrow> DomMutation list
     \<Rightarrow> DomReplaceResult \<times> 'doc host" where
  "domReplace D st windowId mutations =
     (case windowIdToNodeId st windowId of
        None \<Rightarrow>
          (\<lparr>dr_status = ''edited'', dr_windowId = windowId, dr_html = [],
            totals = \<lparr>totalMutations = length mutations, totalTargets = 0,
                       totalApplied = 0, failed = length mutations\<rparr>,
            details = map (\<lambda>m. \<lparr>d_action = action m, d_selector = selector m,
                                  matched = 0, applied = 0, d_error = None\<rparr>) mutations\<rparr>, st)
      | Some nodeId \<Rightarrow>
          if nodeId = [] then
            (\<lparr>dr_status = ''edited'', dr_windowId = windowId, dr_html = [],
              totals = \<lparr>totalMutations = length mutations, totalTargets = 0,
                         totalApplied = 0, failed = length mutations\<rparr>,
              details = map (\<lambda>m. \<lparr>d_action = action m, d_selector = selector m,
                                    matched = 0, applied = 0, d_error = None\<rparr>) mutations\<rparr>, st)
          else
            let st1 = st\<lparr>iframeUpdateQueue := iframeUpdateQueue st - {nodeId}\<rparr>
            in (case domReplace_nodes D st1 nodeId mutations (nodes st1) ([], 0, 0, []) of
                  (nds', assigned) \<Rightarrow>
                    (case (if updatePending st then ([], 0, 0, []) else assigned) of
                       (ds, tTargets, tApplied, finalHtml) \<Rightarrow>
                         (\<lparr>dr_status = ''edited'', dr_windowId = windowId, dr_html = finalHtml,
                           totals = \<lparr>totalMutations = length mutations, totalTargets = tTargets,
                                      totalApplied = tApplied,
                                      failed = failed_count mutations ds\<rparr>,
                           details = ds\<rparr>,
                          st1\<lparr>nodes := nds', updatePending := True\<rparr>))))"

subsection \<open>updateWindowTitle\<close>

definition updateWindowTitle ::
  "'doc host \<Rightarrow> string \<Rightarrow> string \<Rightarrow> UpdateTitleResult \<times> 'doc host" where
  "updateWindowTitle st windowId newTitle =
     (let res = \<lparr>ut_status = ''updated'', ut_windowId = windowId, ut_title = newTitle\<rparr>
      in case windowIdToNodeId st windowId of
           None \<Rightarrow> (res, st)
         | Some nodeId \<Rightarrow>
             if nodeId = [] then (res, st)
             else
               let st1 = st\<lparr>nodes := map (\<lambda>n. if nid n \<noteq> nodeId then n
                                                 else n\<lparr>title := newTitle\<rparr>) (nodes st)\<rparr>;
                   names1 = (case nodeIdToName st1 nodeId of
                               None \<Rightarrow> nameToNodeId st1
                             | Some prevName \<Rightarrow>
                                 if prevName = [] then nameToNodeId st1
                                 else (nameToNodeId st1)(prevName := None))
               in (res, st1\<lparr>nodeIdToName := (nodeIdToName st1)(nodeId \<mapsto> newTitle),
                            nameToNodeId := names1(newTitle \<mapsto> nodeId),
                            updatePending := True\<rparr>))"


subsection \<open>String helpers of the platform\<close>

text \<open>
  Characters are the code units below 256. \<open>js_space\<close> is the white space and line
  terminator set of \<open>String.prototype.trim\<close> and of the pattern class \<open>\s\<close> in that range.
\<close>

definition js_space :: "char \<Rightarrow> bool" where
  "js_space c = (of_char c \<in> {9, 10, 11, 12, 13, 32, 160 :: nat})"

definition js_trim :: "string \<Rightarrow> string" where
  "js_trim s = rev (dropWhile js_space (rev (dropWhile js_space s)))"

definition digit_char :: "nat \<Rightarrow> char" where
  "digit_char d = ''0123456789'' ! d"

fun show_nat :: "nat \<Rightarrow> string" where
  "show_nat n = (if n < 10 then [digit_char n] else show_nat (n div 10) @ [digit_char (n mod 10)])"

declare show_nat.simps [simp del]

text \<open>\<open>s.replace(/ab/g, r)\<close> for a two-character pattern \<open>ab\<close> and a one-character \<open>r\<close>.\<close>

fun replace_pair :: "char \<Rightarrow> char \<Rightarrow> char \<Rightarrow> string \<Rightarrow> string" where
  "replace_pair a b r (x # y # zs) =
     (if x = a \<and> y = b then r # replace_pair a b r zs else x # replace_pair a b r (y # zs))"
| "replace_pair a b r zs = zs"

text \<open>\<open>s.replace(/"/g, '\\"')\<close>: a backslash goes in front of every double quote.\<close>

definition escape_quotes :: "string \<Rightarrow> string" where
  "escape_quotes s = concat (map (\<lambda>c. if c = CHR 0x22 then [CHR 0x5C, CHR 0x22] else [c]) s)"

definition hex_value :: "char \<Rightarrow> nat option" where
  "hex_value c =
     (let n = of_char c :: nat in
      if 48 \<le> n \<and> n \<le> 57 then Some (n - 48)
      else if 65 \<le> n \<and> n \<le> 70 then Some (n - 55)
      else if 97 \<le> n \<and> n \<le> 102 then Some (n - 87)
      else None)"

definition json_space :: "char \<Rightarrow> bool" where
  "json_space c = (of_char c \<in> {9, 10, 13, 32 :: nat})"

text \<open>
  \<open>JSON.parse\<close> on a text that starts with a double quote: \<open>json_string_body\<close> reads the
  string literal after its opening quote. A raw control character, an unknown escape, a
  missing closing quote and anything but white space after the closing quote are syntax
  errors (\<open>None\<close>). An escape \<open>\uXXXX\<close> yields the code unit; code units from 256 on are
  outside the model's characters and are cut to their low byte by \<open>char_of\<close>.
\<close>

fun json_string_body :: "string \<Rightarrow> string option" where
  "json_string_body [] = None"
| "json_string_body (c # cs) =
     (if c = CHR 0x22 then (if list_all json_space cs then Some [] else None)
      else if c = CHR 0x5C then
        (case cs of
           [] \<Rightarrow> None
         | e # rest \<Rightarrow>
             if e = CHR 0x22 \<or> e = CHR 0x5C \<or> e = CHR ''/'' then
               map_option ((#) e) (json_string_body rest)
             else if e = CHR ''b'' then map_option ((#) (CHR 0x08)) (json_string_body rest)
             else if e = CHR ''f'' then map_option ((#) (CHR 0x0C)) (json_string_body rest)
             else if e = CHR ''n'' then map_option ((#) (CHR 0x0A)) (json_string_body rest)
             else if e = CHR ''r'' then map_option ((#) (CHR 0x0D)) (json_string_body rest)
             else if e = CHR ''t'' then map_option ((#) (CHR 0x09)) (json_string_body rest)
             else if e = CHR ''u'' then
               (case rest of
                  h1 # h2 # h3 # h4 # rest' \<Rightarrow>
                    (case (hex_value h1, hex_value h2, hex_value h3, hex_value h4) of
                       (Some a, Some b, Some c', Some d) \<Rightarrow>
                         map_option ((#) (char_of (((a * 16 + b) * 16 + c') * 16 + d)))
                           (json_string_body rest')
                     | _ \<Rightarrow> None)
                | _ \<Rightarrow> None)
             else None)
      else if (of_char c :: nat) < 32 then None
      else map_option ((#) c) (json_string_body cs))"

definition JSON_parse_quoted :: "string \<Rightarrow> string option" where
  "JSON_parse_quoted s = json_string_body (escape_quotes s @ [CHR 0x22])"

definition replace_escapes :: "string \<Rightarrow> string" where
  "replace_escapes s =
     replace_pair (CHR 0x5C) (CHR 0x5C) (CHR 0x5C)
       (replace_pair (CHR 0x5C) (CHR 0x22) (CHR 0x22)
          (replace_pair (CHR 0x5C) (CHR ''r'') (CHR 0x0D)
             (replace_pair (CHR 0x5C) (CHR ''t'') (CHR 0x09)
                (replace_pair (CHR 0x5C) (CHR ''n'') (CHR 0x0A) s))))"

definition unescapeJsonString :: "string \<Rightarrow> string" where
  "unescapeJsonString s =
     (case JSON_parse_quoted s of Some v \<Rightarrow> v | None \<Rightarrow> replace_escapes s)"

definition decodePossibleEscapes :: "string \<Rightarrow> string" where
  "decodePossibleEscapes v =
     (if CHR 0x5C \<notin> set v then v
      else (case JSON_parse_quoted v of Some r \<Rightarrow> r | None \<Rightarrow> replace_escapes v))"

subsection \<open>createNewWindow\<close>

text \<open>
  What the handler reads from the platform: the successive results of
  \<open>Math.random().toString(36).slice(2, 8)\<close> (the state counts the draws made so far),
  the clock, and the window rectangle computed from the viewport.
\<close>

record platform =
  random36 :: "nat \<Rightarrow> string"
  dateNow :: nat
  computeResponsiveRect :: "nat \<Rightarrow> int \<times> int \<times> int \<times> int"

record CreateNewWindowResult =
  cr_status :: string
  cr_name :: string
  finalName :: string
  cr_nodeId :: string
  cr_windowId :: string

text \<open>
  The loop \<open>while (nameToNodeIdRef.current.has(finalName)) finalName = `${name} (${suffix++})`\<close>.
  It ends when the candidate is no key of the map; \<open>None\<close> stands for a loop that never ends.
\<close>

partial_function (option) unique_name ::
  "(string \<rightharpoonup> string) \<Rightarrow> string \<Rightarrow> string \<Rightarrow> nat \<Rightarrow> string option" where
  "unique_name names name candidate suffix =
     (if names candidate \<noteq> None
      then unique_name names name (name @ '' ('' @ show_nat suffix @ '')'') (suffix + 1)
      else Some candidate)"

declare unique_name.simps [code]

text \<open>
  \<open>let windowId = genWindowId(); while (windowIdToNodeIdRef.current.has(windowId)) windowId = genWindowId()\<close>,
  from draw number \<open>k\<close> on; the result carries the number of draws consumed.
\<close>

partial_function (option) fresh_windowId ::
  "(nat \<Rightarrow> string) \<Rightarrow> (string \<rightharpoonup> string) \<Rightarrow> nat \<Rightarrow> (string \<times> nat) option" where
  "fresh_windowId rnd ids k =
     (if ids (''w'' @ rnd k) \<noteq> None
      then fresh_windowId rnd ids (k + 1)
      else Some (''w'' @ rnd k, k + 1))"

declare fresh_windowId.simps [code]

definition maxZIndex :: "canvas_node list \<Rightarrow> nat" where
  "maxZIndex nds = foldl (\<lambda>mx n. max mx (zIndex n)) 0 nds"

definition createNewWindow ::
  "platform \<Rightarrow> 'doc host \<Rightarrow> string \<Rightarrow> string \<Rightarrow> (CreateNewWindowResult \<times> 'doc host) option" where
  "createNewWindow P st name markup =
     (case unique_name (nameToNodeId st) name (js_trim name) 2 of
        None \<Rightarrow> None
      | Some fName \<Rightarrow>
     (case fresh_windowId (random36 P) (windowIdToNodeId st) (draws st) of
        None \<Rightarrow> None
      | Some (windowId, k) \<Rightarrow>
          let normalizedHtml = decodePossibleEscapes markup;
              provisionalId = (case provisionalNameToNodeId st name of
                                 None \<Rightarrow> None
                               | Some p \<Rightarrow> if p = [] then None else Some p);
              renamed = (fName \<noteq> name)
          in (case provisionalId of
                Some pid \<Rightarrow>
                  Some (\<lparr>cr_status = (if renamed then ''renamed'' else ''created''),
                         cr_name = name, finalName = fName, cr_nodeId = pid,
                         cr_windowId = windowId\<rparr>,
                        st\<lparr>nameToNodeId := (nameToNodeId st)(fName \<mapsto> pid),
                           nodeIdToName := (nodeIdToName st)(pid \<mapsto> fName),
                           windowIdToNodeId := (windowIdToNodeId st)(windowId \<mapsto> pid),
                           nodeIdToWindowId := (nodeIdToWindowId st)(pid \<mapsto> windowId),
                           nodes := map (\<lambda>n. if nid n \<noteq> pid then n\<lparr>selected := False\<rparr>
                                               else n\<lparr>selected := True,
                                                      zIndex := max (maxZIndex (nodes st) + 1) (zIndex n),
                                                      html := normalizedHtml,
                                                      title := fName\<rparr>) (nodes st),
                           provisionalNameToNodeId := (provisionalNameToNodeId st)(name := None),
                           focusedWindowId := Some windowId,
                           draws := k,
                           updatePending := True\<rparr>)
              | None \<Rightarrow>
                  let newId = ''iframe-'' @ show_nat (dateNow P) @ ''-'' @ random36 P k;
                      newNode = \<lparr>nid = newId, html = normalizedHtml, title = fName,
                                 selected = True,
                                 zIndex = max (maxZIndex (nodes st) + 1) 1000,
                                 rect = computeResponsiveRect P (createSequence st)\<rparr>
                  in Some (\<lparr>cr_status = (if renamed then ''renamed'' else ''created''),
                            cr_name = name, finalName = fName, cr_nodeId = newId,
                            cr_windowId = windowId\<rparr>,
                           st\<lparr>createSequence := (createSequence st + 1) mod 2 ^ 32,
                              nameToNodeId := (nameToNodeId st)(fName \<mapsto> newId),
                              nodeIdToName := (nodeIdToName st)(newId \<mapsto> fName),
                              windowIdToNodeId := (windowIdToNodeId st)(windowId \<mapsto> newId),
                              nodeIdToWindowId := (nodeIdToWindowId st)(newId \<mapsto> windowId),
                              nodes := map (\<lambda>n. n\<lparr>selected := False\<rparr>) (nodes st) @ [newNode],
                              focusedWindowId := Some windowId,
                              draws := k + 1,
                              updatePending := True\<rparr>))))"


text \<open>
  Two successive calls with the same name, the second on the store the first one left:
  the two values of \<open>finalName\<close>, or \<open>None\<close> when a call does not return.
\<close>

definition create_twice ::
  "platform \<Rightarrow> 'doc host \<Rightarrow> string \<Rightarrow> string \<Rightarrow> string \<Rightarrow> (string \<times> string) option" where
  "create_twice P st name markup1 markup2 =
     (case createNewWindow P st name markup1 of
        None \<Rightarrow> None
      | Some (r1, st1) \<Rightarrow>
          (case createNewWindow P st1 name markup2 of
             None \<Rightarrow> None
           | Some (r2, st2) \<Rightarrow> Some (finalName r1, finalName r2)))"

text \<open>
  The random source keeps offering usable ids: from every point of the draw sequence on,
  and whichever single id is registered in addition, some later draw gives an id that is
  not registered.
\<close>

definition random_source_ok :: "platform \<Rightarrow> (string \<rightharpoonup> string) \<Rightarrow> bool" where
  "random_source_ok P ids =
     (\<forall>k w n. \<exists>j. (ids(w \<mapsto> n)) (''w'' @ random36 P (k + j)) = None)"

section \<open>Markup healer\<close>



































section \<open>Partial-JSON field extractor\<close>

text \<open>
  The pattern built in \<open>extractLatestJsonStringField\<close> escapes every character of the
  field name that a regular expression reads specially, so it matches the name literally,
  in double quotes, followed by optional white space, a colon, optional white space and an
  opening double quote. \<open>field_regex\<close> gives the length of the match at a suffix.
\<close>

definition field_regex :: "string \<Rightarrow> string \<Rightarrow> nat option" where
  "field_regex field s =
     (let key = CHR 0x22 # field @ [CHR 0x22] in
      if take (length key) s \<noteq> key then None
      else
        let r1 = drop (length key) s;
            ws1 = takeWhile js_space r1;
            r2 = drop (length ws1) r1
        in (case r2 of
              [] \<Rightarrow> None
            | c # r3 \<Rightarrow>
                if c \<noteq> CHR '':'' then None
                else
                  let ws2 = takeWhile js_space r3;
                      r4 = drop (length ws2) r3
                  in (case r4 of
                        [] \<Rightarrow> None
                      | q # _ \<Rightarrow>
                          if q = CHR 0x22
                          then Some (length key + length ws1 + 1 + length ws2 + 1)
                          else None)))"

text \<open>
  \<open>while ((m = re.exec(jsonLike)) !== null) lastIndex = m.index + m[0].length\<close>, with
  the offset of the suffix in the buffer and the value of \<open>lastIndex\<close> so far.
\<close>

fun field_scan :: "string \<Rightarrow> string \<Rightarrow> nat \<Rightarrow> int \<Rightarrow> int" where
  "field_scan field [] off lastIndex = lastIndex"
| "field_scan field (c # cs) off lastIndex =
     (case field_regex field (c # cs) of
        None \<Rightarrow> field_scan field cs (off + 1) lastIndex
      | Some len \<Rightarrow> field_scan field (drop (len - 1) cs) (off + len) (int (off + len)))"

text \<open>The scan for the next unescaped quote, with \<open>out\<close> and the flag \<open>escaped\<close>.\<close>

fun scan_value :: "string \<Rightarrow> string \<Rightarrow> bool \<Rightarrow> string" where
  "scan_value [] out escaped = out"
| "scan_value (ch # cs) out escaped =
     (if escaped then scan_value cs (out @ [CHR 0x5C, ch]) False
      else if ch = CHR 0x5C then scan_value cs out True
      else if ch = CHR 0x22 then out
      else scan_value cs (out @ [ch]) False)"

definition extractLatestJsonStringField :: "string \<Rightarrow> string \<Rightarrow> string option" where
  "extractLatestJsonStringField jsonLike field =
     (let lastIndex = field_scan field jsonLike 0 (- 1) in
      if lastIndex = - 1 then None
      else Some (unescapeJsonString (scan_value (drop (nat lastIndex) jsonLike) [] False)))"


text \<open>
  For stating what the extractor returns: whether the pattern occurs anywhere in the
  buffer, the text that follows the opening quote of the occurrence the scan ends on,
  whether a text holds a double quote that no backslash escapes, and a text without the
  backslash that would end it unpaired.
\<close>

fun field_occurs :: "string \<Rightarrow> string \<Rightarrow> bool" where
  "field_occurs field [] = False"
| "field_occurs field (c # cs) = (field_regex field (c # cs) \<noteq> None \<or> field_occurs field cs)"

definition value_text :: "string \<Rightarrow> string \<Rightarrow> string" where
  "value_text jsonLike field = drop (nat (field_scan field jsonLike 0 (- 1))) jsonLike"

fun closing_quote :: "string \<Rightarrow> bool" where
  "closing_quote [] = False"
| "closing_quote [c] = (c = CHR 0x22)"
| "closing_quote (c # e # cs) =
     (if c = CHR 0x5C then closing_quote cs
      else if c = CHR 0x22 then True
      else closing_quote (e # cs))"

fun complete_pairs :: "string \<Rightarrow> string" where
  "complete_pairs [] = []"
| "complete_pairs [c] = (if c = CHR 0x5C then [] else [c])"
| "complete_pairs (c # e # cs) =
     (if c = CHR 0x5C then c # e # complete_pairs cs else c # complete_pairs (e # cs))"

section \<open>Orchestration loop\<close>

text \<open>
  \<open>runAgentStream\<close> is a generator: the model returns the list of events it yields and
  the values its three deferred promises hold at the end. The transport, the JSON
  functions and the four tool handlers are parameters. The transport answers the request
  of a step with an exception or with a stream: its chunks, the exception that ends the
  iteration early if there is one, and the usage of the consolidated final completion when
  the stream offers it. A handler returns its result or throws.
\<close>

record tool_call_delta =
  tc_index :: "nat option"
  tc_id :: "string option"
  tc_name :: "string option"
  tc_arguments :: "string option"

record usage_info =
  prompt_tokens :: "int option"
  completion_tokens :: "int option"

record chunk =
  content :: "string option"
  tool_calls :: "tool_call_delta list option"
  chunk_usage :: "usage_info option"

record stream_response =
  chunks :: "chunk list"
  stream_error :: "string option"
  final_usage :: "usage_info option"

record tool_state =
  ts_id :: string
  ts_name :: "string option"
  argsText :: string
  started :: bool

datatype message =
    Plain_message string string
  | Assistant_tool_calls "(string \<times> string \<times> string) list"
  | Tool_message string string

datatype 'r event =
    Text_delta string
  | Tool_call string string
  | Tool_input_delta "string option" string string
  | Tool_result string string 'r
  | Finish_step
  | Finish string
  | Error_event string

record ('a, 's, 'r) agent_env =
  client_create :: "nat \<Rightarrow> message list \<Rightarrow> string + stream_response"
  parse_args :: "string \<Rightarrow> 'a"
  stringify_args :: "'a \<Rightarrow> string"
  stringify_result :: "'r \<Rightarrow> string"
  null_result :: 'r
  tool_createNewWindow :: "'a \<Rightarrow> 's \<Rightarrow> (string + 'r) \<times> 's"
  tool_domReplace :: "'a \<Rightarrow> 's \<Rightarrow> (string + 'r) \<times> 's"
  tool_updateWindowTitle :: "'a \<Rightarrow> 's \<Rightarrow> (string + 'r) \<times> 's"
  tool_setWindowHtml :: "'a \<Rightarrow> 's \<Rightarrow> (string + 'r) \<times> 's"

text \<open>
  The variables of the generator, the events yielded so far, the requests sent to the
  transport so far, and the three deferred values (\<open>None\<close> while pending).
\<close>

record ('s, 'r) agent_state =
  messagesParam :: "message list"
  finalTextForAllSteps :: string
  aggregatedToolResults :: "(string \<times> string \<times> 'r) list"
  lastStepPromptTokens :: int
  lastStepCompletionTokens :: int
  tool_store :: 's
  events :: "'r event list"
  requests :: "message list list"
  textDeferred :: "string option"
  toolResultsDeferred :: "(string \<times> string \<times> 'r) list option"
  usageDeferred :: "(int option \<times> int option) option"

text \<open>A promise keeps the value of its first \<open>resolve\<close>.\<close>

definition resolve :: "'v option \<Rightarrow> 'v \<Rightarrow> 'v option" where
  "resolve d v = (case d of None \<Rightarrow> Some v | Some w \<Rightarrow> Some w)"

text \<open>A \<open>Map\<close> whose iteration order matters: \<open>set\<close> keeps the place of a key it has.\<close>

fun map_set :: "'k \<Rightarrow> 'v \<Rightarrow> ('k \<times> 'v) list \<Rightarrow> ('k \<times> 'v) list" where
  "map_set k v [] = [(k, v)]"
| "map_set k v ((k', v') # kvs) =
     (if k' = k then (k, v) # kvs else (k', v') # map_set k v kvs)"

text \<open>The per-step variables \<open>toolState\<close>, \<open>stepText\<close> and \<open>stepUsageFromChunks\<close>.\<close>

record step_vars =
  toolState :: "(nat \<times> tool_state) list"
  stepText :: string
  stepUsageFromChunks :: "usage_info option"

text \<open>The body of \<open>for (const tc of toolCalls)\<close>.\<close>

definition process_tool_delta ::
  "nat \<Rightarrow> tool_call_delta \<Rightarrow> (nat \<times> tool_state) list \<times> 'r event list
     \<Rightarrow> (nat \<times> tool_state) list \<times> 'r event list" where
  "process_tool_delta step tc acc =
     (case acc of (tstate, evs) \<Rightarrow>
        let idx = (case tc_index tc of None \<Rightarrow> 0 | Some i \<Rightarrow> i);
            st0 = (case map_of tstate idx of
                     None \<Rightarrow> \<lparr>ts_id = [], ts_name = None, argsText = [], started = False\<rparr>
                   | Some st \<Rightarrow> st);
            st1 = (if ts_id st0 = []
                   then st0\<lparr>ts_id := (case tc_id tc of
                                         None \<Rightarrow> ''tc_'' @ show_nat step @ ''_'' @ show_nat idx
                                       | Some i \<Rightarrow> if i = [] then ''tc_'' @ show_nat step @ ''_'' @ show_nat idx
                                                   else i)\<rparr>
                   else st0);
            name = (case tc_name tc of None \<Rightarrow> ts_name st1 | Some n \<Rightarrow> Some n);
            st2 = st1\<lparr>ts_name := name\<rparr>;
            starts = (\<not> started st2 \<and> name \<noteq> None \<and> name \<noteq> Some []);
            st3 = (if starts then st2\<lparr>started := True\<rparr> else st2);
            evs1 = (if starts then evs @ [Tool_call (the name) (ts_id st3)] else evs)
        in (case tc_arguments tc of
              None \<Rightarrow> (map_set idx st3 tstate, evs1)
            | Some argsDelta \<Rightarrow>
                if argsDelta = [] then (map_set idx st3 tstate, evs1)
                else (map_set idx (st3\<lparr>argsText := argsText st3 @ argsDelta\<rparr>) tstate,
                      evs1 @ [Tool_input_delta (ts_name st3) (ts_id st3) argsDelta])))"

text \<open>The body of \<open>for await (const chunk of stream)\<close>.\<close>

definition process_chunk ::
  "nat \<Rightarrow> chunk \<Rightarrow> step_vars \<times> ('s, 'r) agent_state \<Rightarrow> step_vars \<times> ('s, 'r) agent_state" where
  "process_chunk step ch acc =
     (case acc of (V, L) \<Rightarrow>
        let (V1, L1) =
              (case content ch of
                 None \<Rightarrow> (V, L)
               | Some textDelta \<Rightarrow>
                   if textDelta = [] then (V, L)
                   else (V\<lparr>stepText := stepText V @ textDelta\<rparr>,
                         L\<lparr>finalTextForAllSteps := finalTextForAllSteps L @ textDelta,
                           events := events L @ [Text_delta textDelta]\<rparr>));
            (V2, L2) =
              (case tool_calls ch of
                 None \<Rightarrow> (V1, L1)
               | Some tcs \<Rightarrow>
                   (case foldl (\<lambda>a tc. process_tool_delta step tc a) (toolState V1, events L1) tcs of
                      (tstate, evs) \<Rightarrow> (V1\<lparr>toolState := tstate\<rparr>, L1\<lparr>events := evs\<rparr>)))
        in (case chunk_usage ch of
              None \<Rightarrow> (V2, L2)
            | Some u \<Rightarrow> (V2\<lparr>stepUsageFromChunks := Some u\<rparr>, L2)))"

text \<open>Dispatch of one completed call by its tool name; an unknown name gives \<open>null\<close>.\<close>

definition dispatch_tool ::
  "('a, 's, 'r) agent_env \<Rightarrow> string \<Rightarrow> 'a \<Rightarrow> 's \<Rightarrow> (string + 'r) \<times> 's" where
  "dispatch_tool E name args s =
     (if name = ''create_new_window'' then tool_createNewWindow E args s
      else if name = ''dom_replace'' then tool_domReplace E args s
      else if name = ''update_window_title'' then tool_updateWindowTitle E args s
      else if name = ''set_window_html'' then tool_setWindowHtml E args s
      else (Inr (null_result E), s))"

text \<open>
  The loop \<open>for (const call of toolCallsToExecute)\<close> with the two history lists it
  builds. A handler that throws ends it: \<open>Inl\<close> carries the message and the state at
  the throw.
\<close>

fun execute_calls ::
  "('a, 's, 'r) agent_env \<Rightarrow> tool_state list \<Rightarrow> ('s, 'r) agent_state
     \<Rightarrow> (string \<times> string \<times> string) list \<Rightarrow> message list
     \<Rightarrow> string \<times> ('s, 'r) agent_state
        + ('s, 'r) agent_state \<times> (string \<times> string \<times> string) list \<times> message list" where
  "execute_calls E [] L assistantCalls toolMsgs = Inr (L, assistantCalls, toolMsgs)"
| "execute_calls E (call # calls) L assistantCalls toolMsgs =
     (let name = (case ts_name call of None \<Rightarrow> [] | Some n \<Rightarrow> n);
          cid = ts_id call;
          args = parse_args E (argsText call)
      in (case dispatch_tool E name args (tool_store L) of
            (Inl err, s') \<Rightarrow> Inl (err, L\<lparr>tool_store := s'\<rparr>)
          | (Inr result, s') \<Rightarrow>
              execute_calls E calls
                (L\<lparr>tool_store := s',
                   aggregatedToolResults := aggregatedToolResults L @ [(cid, name, result)],
                   events := events L @ [Tool_result cid name result]\<rparr>)
                (assistantCalls @ [(cid, name, stringify_args E args)])
                (toolMsgs @ [Tool_message cid (stringify_result E result)])))"

definition update_last_usage :: "usage_info option \<Rightarrow> ('s, 'r) agent_state \<Rightarrow> ('s, 'r) agent_state" where
  "update_last_usage stepUsage L =
     (case stepUsage of
        None \<Rightarrow> L
      | Some u \<Rightarrow>
          let L1 = (case prompt_tokens u of
                      None \<Rightarrow> L | Some pt \<Rightarrow> L\<lparr>lastStepPromptTokens := pt\<rparr>)
          in (case completion_tokens u of
                None \<Rightarrow> L1 | Some ct \<Rightarrow> L1\<lparr>lastStepCompletionTokens := ct\<rparr>))"

definition resolve_usage :: "('s, 'r) agent_state \<Rightarrow> ('s, 'r) agent_state" where
  "resolve_usage L =
     L\<lparr>usageDeferred := resolve (usageDeferred L)
                           (Some (lastStepPromptTokens L), Some (lastStepCompletionTokens L))\<rparr>"

text \<open>
  How one pass through the body of \<open>for (let step = 0; step < 12; step++)\<close> ends: with
  an exception, at the \<open>break\<close>, or at the end of the body.
\<close>

datatype ('s, 'r) step_end =
    Thrown string "('s, 'r) agent_state"
  | Break "('s, 'r) agent_state"
  | Next_step "('s, 'r) agent_state"

definition run_step ::
  "('a, 's, 'r) agent_env \<Rightarrow> nat \<Rightarrow> ('s, 'r) agent_state \<Rightarrow> ('s, 'r) step_end" where
  "run_step E step L0 =
     (let L = L0\<lparr>requests := requests L0 @ [messagesParam L0]\<rparr> in
      case client_create E step (messagesParam L) of
        Inl err \<Rightarrow> Thrown err L
      | Inr stream \<Rightarrow>
          (case foldl (\<lambda>a ch. process_chunk step ch a)
                  (\<lparr>toolState = [], stepText = [], stepUsageFromChunks = None\<rparr>, L)
                  (chunks stream) of
             (V, L1) \<Rightarrow>
               (case stream_error stream of
                  Some err \<Rightarrow> Thrown err L1
                | None \<Rightarrow>
                    let stepUsage = (case final_usage stream of
                                       Some u \<Rightarrow> Some u | None \<Rightarrow> stepUsageFromChunks V);
                        L2 = update_last_usage stepUsage L1;
                        toolCallsToExecute =
                          filter (\<lambda>t. ts_name t \<noteq> None \<and> ts_name t \<noteq> Some [])
                            (map snd (toolState V))
                    in if toolCallsToExecute = [] then
                         Break ((resolve_usage
                                   (L2\<lparr>textDeferred := resolve (textDeferred L2) (stepText V)\<rparr>))
                                 \<lparr>events := events L2 @ [Finish ''stop'']\<rparr>)
                       else
                         (case execute_calls E toolCallsToExecute L2 [] [] of
                            Inl (err, L3) \<Rightarrow> Thrown err L3
                          | Inr (L3, assistantCalls, toolMsgs) \<Rightarrow>
                              Next_step
                                (L3\<lparr>messagesParam :=
                                       messagesParam L3 @ [Assistant_tool_calls assistantCalls] @ toolMsgs,
                                     events := events L3 @ [Finish_step]\<rparr>)))))"

function run_steps ::
  "('a, 's, 'r) agent_env \<Rightarrow> nat \<Rightarrow> ('s, 'r) agent_state \<Rightarrow> ('s, 'r) step_end" where
  "run_steps E step L =
     (if step < 12 then
        (case run_step E step L of
           Next_step L' \<Rightarrow> run_steps E (step + 1) L'
         | other \<Rightarrow> other)
      else Next_step L)"
  by pat_completeness auto
termination
  by (relation "measure (\<lambda>(E, step, L). 12 - step)") auto

declare run_steps.simps [simp del]

text \<open>The statements after the loop, reached when the loop ends and also after \<open>break\<close>.\<close>

definition after_loop :: "('s, 'r) agent_state \<Rightarrow> ('s, 'r) agent_state" where
  "after_loop L =
     (let L1 = L\<lparr>textDeferred := resolve (textDeferred L) (finalTextForAllSteps L)\<rparr>;
          L2 = resolve_usage L1;
          L3 = L2\<lparr>toolResultsDeferred := resolve (toolResultsDeferred L2) (aggregatedToolResults L2)\<rparr>
      in L3\<lparr>events := events L3 @ [Finish ''length'']\<rparr>)"

text \<open>The \<open>catch\<close> block.\<close>

definition catch_block :: "string \<Rightarrow> ('s, 'r) agent_state \<Rightarrow> ('s, 'r) agent_state" where
  "catch_block msg L =
     L\<lparr>toolResultsDeferred := resolve (toolResultsDeferred L) [],
       usageDeferred := resolve (usageDeferred L) (None, None),
       textDeferred := resolve (textDeferred L) [],
       events := events L @ [Error_event msg]\<rparr>"

definition initial_agent_state :: "message list \<Rightarrow> 's \<Rightarrow> ('s, 'r) agent_state" where
  "initial_agent_state openaiMessagesBase s =
     \<lparr>messagesParam = openaiMessagesBase, finalTextForAllSteps = [],
      aggregatedToolResults = [], lastStepPromptTokens = 0, lastStepCompletionTokens = 0,
      tool_store = s, events = [], requests = [], textDeferred = None,
      toolResultsDeferred = None, usageDeferred = None\<rparr>"

definition runAgentStream ::
  "('a, 's, 'r) agent_env \<Rightarrow> message list \<Rightarrow> 's \<Rightarrow> ('s, 'r) agent_state" where
  "runAgentStream E openaiMessagesBase s =
     (case run_steps E 0 (initial_agent_state openaiMessagesBase s) of
        Thrown msg L \<Rightarrow> catch_block msg L
      | Break L \<Rightarrow> after_loop L
      | Next_step L \<Rightarrow> after_loop L)"


text \<open>
  Reading the event list: the text an event carries, the concatenation of all text deltas
  yielded, and whether the list holds no \<open>finish\<close> and no \<open>error\<close> event.
\<close>

fun text_of :: "'r event \<Rightarrow> string" where
  "text_of (Text_delta t) = t"
| "text_of _ = []"

definition emitted_text :: "'r event list \<Rightarrow> string" where
  "emitted_text evs = concat (map text_of evs)"

fun terminal :: "'r event \<Rightarrow> bool" where
  "terminal (Finish _) = True"
| "terminal (Error_event _) = True"
| "terminal _ = False"

fun is_error :: "'r event \<Rightarrow> bool" where
  "is_error (Error_event _) = True"
| "is_error _ = False"

text \<open>
  Two notions for the invariant of the loop. \<open>running\<close>: nothing final has happened yet
  (no \<open>finish\<close> or \<open>error\<close> event was yielded, the text promise is pending) and the text
  variable holds exactly the text deltas yielded. \<open>quiet_ext L L'\<close>: from \<open>L\<close> to \<open>L'\<close> only
  non-final events were yielded, the text variable grew by their text, and neither the
  text promise nor the list of requests changed.
\<close>

definition running :: "('s, 'r) agent_state \<Rightarrow> bool" where
  "running L = (finalTextForAllSteps L = emitted_text (events L) \<and> textDeferred L = None
                \<and> (\<forall>e \<in> set (events L). \<not> terminal e))"

definition quiet_ext :: "('s, 'r) agent_state \<Rightarrow> ('s, 'r) agent_state \<Rightarrow> bool" where
  "quiet_ext L L' =
     (\<exists>new. events L' = events L @ new
           \<and> finalTextForAllSteps L' = finalTextForAllSteps L @ emitted_text new
           \<and> (\<forall>e \<in> set new. \<not> terminal e)
           \<and> textDeferred L' = textDeferred L
           \<and> requests L' = requests L)"

section \<open>Concrete instances\<close>

text \<open>
  A small document model for evaluating the handlers at concrete inputs: a document is
  its markup, the selector \<open>p\<close> matches one element, every other selector but the empty
  one matches nothing, and the empty selector is a syntax error, as it is in a browser.
  Setting the text of the element rewrites the markup; the other edits leave it.
\<close>

definition sample_dom :: "(string, nat) dom_api" where
  "sample_dom =
     \<lparr>parseFromString = (\<lambda>markup. markup),
      outerHTML = (\<lambda>doc. Some doc),
      querySelectorAll = (\<lambda>doc sel. if sel = [] then Inl ''SyntaxError''
                                       else if sel = ''p'' then Inr [0] else Inr []),
      element_effect = (\<lambda>m el doc. case m of
                           Set_text _ t \<Rightarrow> (''<p>'' @ t @ ''</p>'', None)
                         | _ \<Rightarrow> (doc, None))\<rparr>"

definition sample_node :: canvas_node where
  "sample_node =
     \<lparr>nid = ''n1'', html = ''<p>hi</p>'', title = ''Notes'', selected = False, zIndex = 1000,
      rect = (0, 0, 640, 400)\<rparr>"

definition empty_host :: "string host" where
  "empty_host =
     \<lparr>nameToNodeId = Map.empty, nodeIdToName = Map.empty, windowIdToNodeId = Map.empty,
      nodeIdToWindowId = Map.empty, provisionalNameToNodeId = Map.empty,
      liveIframeDoc = Map.empty, iframeUpdateQueue = {}, createSequence = 0, nodes = [],
      focusedWindowId = None, draws = 0, updatePending = False\<rparr>"

definition notes2_host :: "string host" where
  "notes2_host = empty_host\<lparr>nameToNodeId := [''Notes (2)'' \<mapsto> ''n0''],
                            nodeIdToName := [''n0'' \<mapsto> ''Notes (2)'']\<rparr>"

definition busy_host :: "string host" where
  "busy_host = empty_host\<lparr>windowIdToNodeId := [''wa'' \<mapsto> ''n1''],
                          nodeIdToWindowId := [''n1'' \<mapsto> ''wa''], draws := 1\<rparr>"

definition sample_host :: "string host" where
  "sample_host =
     empty_host\<lparr>nameToNodeId := [''Notes'' \<mapsto> ''n1''], nodeIdToName := [''n1'' \<mapsto> ''Notes''],
                windowIdToNodeId := [''w1'' \<mapsto> ''n1''], nodeIdToWindowId := [''n1'' \<mapsto> ''w1''],
                nodes := [sample_node]\<rparr>"

text \<open>The same store at a moment when React has an update of the node list pending.\<close>

definition pending_host :: "string host" where
  "pending_host = sample_host\<lparr>updatePending := True\<rparr>"

text \<open>A platform whose \<open>k\<close>-th random string is \<open>k\<close> letters \<open>a\<close>.\<close>

definition sample_platform :: platform where
  "sample_platform =
     \<lparr>random36 = (\<lambda>k. replicate k (CHR ''a'')), dateNow = 0,
      computeResponsiveRect = (\<lambda>i. (0, 0, 640, 400))\<rparr>"


text \<open>
  What \<open>domReplace\<close> does to the stored markup of a node whatever the mutations are:
  the markup it starts from is the live markup of the frame, else the stored markup, else
  the blank document; with no mutation to apply, the node gets the serialisation of that.
\<close>

definition current_document :: "('doc, 'el) dom_api \<Rightarrow> 'doc host \<Rightarrow> canvas_node \<Rightarrow> 'doc" where
  "current_document D st n =
     (let currentHtml = (case getLiveIframeHtml D st (nid n) of Some live \<Rightarrow> live | None \<Rightarrow> html n)
      in parseFromString D (if currentHtml = [] then blank_document else currentHtml))"

definition normalised_html :: "('doc, 'el) dom_api \<Rightarrow> 'doc host \<Rightarrow> canvas_node \<Rightarrow> string" where
  "normalised_html D st n = serialize D (current_document D st n)"

text \<open>The detail record the \<open>catch\<close> block pushes for a mutation that threw.\<close>

definition failure_detail :: "DomMutation \<Rightarrow> string \<Rightarrow> mutation_detail" where
  "failure_detail m err =
     \<lparr>d_action = action m, d_selector = selector m, matched = 0, applied = 0, d_error = Some err\<rparr>"

text \<open>
  Two transports for evaluating the loop: one answers every request with the text \<open>hi\<close>
  and no tool call, the other answers every request with the text \<open>a\<close> and one call of
  \<open>create_new_window\<close>. The handlers return a fixed result.
\<close>

definition text_only_env :: "(string, nat, string) agent_env" where
  "text_only_env =
     \<lparr>client_create = (\<lambda>step msgs.
         Inr \<lparr>chunks = [\<lparr>content = Some ''hi'', tool_calls = None, chunk_usage = None\<rparr>],
              stream_error = None, final_usage = None\<rparr>),
      parse_args = (\<lambda>s. s), stringify_args = (\<lambda>a. a), stringify_result = (\<lambda>r. r),
      null_result = ''null'',
      tool_createNewWindow = (\<lambda>a s. (Inr ''created'', s + 1)),
      tool_domReplace = (\<lambda>a s. (Inr ''edited'', s)),
      tool_updateWindowTitle = (\<lambda>a s. (Inr ''updated'', s)),
      tool_setWindowHtml = (\<lambda>a s. (Inr ''set'', s))\<rparr>"

definition looping_env :: "(string, nat, string) agent_env" where
  "looping_env =
     text_only_env\<lparr>client_create := (\<lambda>step msgs.
        Inr \<lparr>chunks = [\<lparr>content = Some ''a'',
                         tool_calls = Some [\<lparr>tc_index = Some 0, tc_id = Some ''c'',
                                              tc_name = Some ''create_new_window'',
                                              tc_arguments = Some ''{}''\<rparr>],
                         chunk_usage = None\<rparr>],
             stream_error = None, final_usage = None\<rparr>)\<rparr>"


section \<open>Properties of the tool handlers\<close>

subsection \<open>The executor on a list of mutations\<close>

lemma applyMutations_append:
  "applyMutations D (xs @ ys) acc =
     (case applyMutations D xs acc of
        (acc', ds) \<Rightarrow> (case applyMutations D ys acc' of (acc'', ds') \<Rightarrow> (acc'', ds @ ds')))"
  by (induction xs arbitrary: acc) (auto split: prod.splits)

lemma applyMutations_length: "length (snd (applyMutations D ms acc)) = length ms"
  by (induction ms arbitrary: acc) (simp_all add: case_prod_beta)

lemma applyMutation_throws:
  "mutation_outcome D doc m = (doc', Inl err) \<Longrightarrow>
   applyMutation D m (doc, tt, ta) = ((doc', tt, ta), failure_detail m err)"
  by (simp add: applyMutation_def failure_detail_def)

lemma domReplace_nodes_other:
  "\<forall>n \<in> set nds. nid n \<noteq> nodeId \<Longrightarrow> domReplace_nodes D st nodeId ms nds acc = (nds, acc)"
  by (induction nds) auto

lemma domReplace_nodes_unique:
  assumes "\<forall>n \<in> set before. nid n \<noteq> nodeId" and "\<forall>n \<in> set after. nid n \<noteq> nodeId"
    and "nid n = nodeId"
    and "applyMutations D ms (current_document D st n, tt, ta) = ((doc', tt', ta'), ds')"
  shows "domReplace_nodes D st nodeId ms (before @ n # after) (ds, tt, ta, fin) =
           (before @ n\<lparr>html := serialize D doc'\<rparr> # after, (ds', tt', ta', serialize D doc'))"
  using assms(1)
proof (induction before)
  case Nil
  then show ?case
    using assms(2-4) by (simp add: domReplace_nodes_other current_document_def Let_def)
next
  case (Cons b before)
  then show ?case by simp
qed

text \<open>
  What \<open>domReplace\<close> reports when its updater runs during the call and one mutation
  throws: the mutations before it (\<open>pre\<close>) have their details, the failing one gets the
  detail with \<open>matched = 0\<close>, \<open>applied = 0\<close> and the message, the mutations after it
  (\<open>post\<close>) are applied to the document the failing one left behind, and \<open>failed\<close> counts
  the failing mutation.
\<close>

lemma inline_updater_reports_failing_op:
  assumes win: "windowIdToNodeId st windowId = Some nodeId" "nodeId \<noteq> []"
    and inline: "\<not> updatePending st"
    and nds: "nodes st = before @ n # after" "nid n = nodeId"
             "\<forall>x \<in> set before. nid x \<noteq> nodeId" "\<forall>x \<in> set after. nid x \<noteq> nodeId"
    and pre: "applyMutations D pre
                (current_document D (st\<lparr>iframeUpdateQueue := iframeUpdateQueue st - {nodeId}\<rparr>) n, 0, 0)
              = ((doc1, tt1, ta1), ds1)"
    and thr: "mutation_outcome D doc1 m = (doc2, Inl err)"
    and post: "applyMutations D post (doc2, tt1, ta1) = ((doc3, tt3, ta3), ds3)"
  shows "details (fst (domReplace D st windowId (pre @ m # post))) = ds1 @ failure_detail m err # ds3
       \<and> failed (totals (fst (domReplace D st windowId (pre @ m # post))))
           = failed_count pre ds1 + 1 + failed_count post ds3
       \<and> totalTargets (totals (fst (domReplace D st windowId (pre @ m # post)))) = tt3
       \<and> totalApplied (totals (fst (domReplace D st windowId (pre @ m # post)))) = ta3
       \<and> dr_html (fst (domReplace D st windowId (pre @ m # post))) = serialize D doc3
       \<and> nodes (snd (domReplace D st windowId (pre @ m # post)))
           = before @ n\<lparr>html := serialize D doc3\<rparr> # after"
proof -
  let ?st1 = "st\<lparr>iframeUpdateQueue := iframeUpdateQueue st - {nodeId}\<rparr>"
  have all: "applyMutations D (pre @ m # post) (current_document D ?st1 n, 0, 0)
               = ((doc3, tt3, ta3), ds1 @ failure_detail m err # ds3)"
    using pre post applyMutation_throws [OF thr]
    by (simp add: applyMutations_append)
  have run: "domReplace_nodes D ?st1 nodeId (pre @ m # post) (nodes ?st1) ([], 0, 0, []) =
               (before @ n\<lparr>html := serialize D doc3\<rparr> # after,
                (ds1 @ failure_detail m err # ds3, tt3, ta3, serialize D doc3))"
    using domReplace_nodes_unique [OF nds(3) nds(4) nds(2) all] nds(1) by simp
  have l1: "length ds1 = length pre"
    using applyMutations_length [of D pre] pre by (metis snd_conv)
  have l3: "length ds3 = length post"
    using applyMutations_length [of D post] post by (metis snd_conv)
  have f1: "length (filter (\<lambda>d. applied d > 0) ds1) \<le> length pre"
    using l1 length_filter_le [of _ ds1] by metis
  have f3: "length (filter (\<lambda>d. applied d > 0) ds3) \<le> length post"
    using l3 length_filter_le [of _ ds3] by metis
  have fc: "failed_count (pre @ m # post) (ds1 @ failure_detail m err # ds3)
              = failed_count pre ds1 + 1 + failed_count post ds3"
    using f1 f3 by (simp add: failed_count_def failure_detail_def)
  show ?thesis
    using win inline run fc by (simp add: domReplace_def Let_def)
qed

text \<open>
  What \<open>domReplace\<close> reports when React queues its updater: the result is built from the
  initial values of the variables, whatever the mutations are and whatever they did.
\<close>

lemma queued_updater_report:
  assumes "windowIdToNodeId st windowId = Some nodeId" and "nodeId \<noteq> []"
    and "updatePending st"
  shows "details (fst (domReplace D st windowId mutations)) = []
       \<and> totals (fst (domReplace D st windowId mutations))
           = \<lparr>totalMutations = length mutations, totalTargets = 0, totalApplied = 0,
              failed = length mutations\<rparr>
       \<and> dr_html (fst (domReplace D st windowId mutations)) = []"
  using assms by (simp add: domReplace_def Let_def case_prod_beta failed_count_def)

text \<open>
  C5 on the code. The window exists and React has an update of the node list pending, as
  it has after any earlier \<open>setNodes\<close> since the last render. Of three mutations the second
  has the empty selector, which throws. The mutations are applied to the stored document
  (the third one after the failing one: the stored markup ends as \<open><p>B</p>\<close>), but the
  result the handler returns has no detail record at all, so none for the failing
  mutation, its totals count no target and no application and all three mutations as
  failed, and its markup is empty.
\<close>

theorem queued_updater_loses_details:
  "updatePending pending_host
   \<and> windowIdToNodeId pending_host ''w1'' = Some ''n1''
   \<and> map nid (nodes pending_host) = [''n1'']
   \<and> details (fst (domReplace sample_dom pending_host ''w1''
         [Set_text ''p'' ''A'', Set_text [] ''x'', Set_text ''p'' ''B''])) = []
   \<and> totals (fst (domReplace sample_dom pending_host ''w1''
         [Set_text ''p'' ''A'', Set_text [] ''x'', Set_text ''p'' ''B'']))
       = \<lparr>totalMutations = 3, totalTargets = 0, totalApplied = 0, failed = 3\<rparr>
   \<and> dr_html (fst (domReplace sample_dom pending_host ''w1''
         [Set_text ''p'' ''A'', Set_text [] ''x'', Set_text ''p'' ''B''])) = []
   \<and> map html (nodes (snd (domReplace sample_dom pending_host ''w1''
         [Set_text ''p'' ''A'', Set_text [] ''x'', Set_text ''p'' ''B'']))) = [''<!DOCTYPE html><p>B</p>'']"
  by (simp add: domReplace_def pending_host_def sample_host_def empty_host_def sample_node_def
      sample_dom_def Let_def getLiveIframeHtml_def serialize_def doctype_def failed_count_def
      applyMutation_def mutation_outcome_def)

text \<open>
  The same call when no update is pending: the updater runs during the call and the
  result carries the three details, the second with the message.
\<close>

lemma inline_updater_example:
  "\<not> updatePending sample_host
   \<and> map applied (details (fst (domReplace sample_dom sample_host ''w1''
         [Set_text ''p'' ''A'', Set_text [] ''x'', Set_text ''p'' ''B'']))) = [1, 0, 1]
   \<and> map d_error (details (fst (domReplace sample_dom sample_host ''w1''
         [Set_text ''p'' ''A'', Set_text [] ''x'', Set_text ''p'' ''B''])))
       = [None, Some ''SyntaxError'', None]
   \<and> failed (totals (fst (domReplace sample_dom sample_host ''w1''
         [Set_text ''p'' ''A'', Set_text [] ''x'', Set_text ''p'' ''B'']))) = 1"
  by (simp add: domReplace_def sample_host_def empty_host_def sample_node_def
      sample_dom_def Let_def getLiveIframeHtml_def serialize_def doctype_def failed_count_def
      applyMutation_def mutation_outcome_def)

text \<open>
  C6. A \<open>windowId\<close> that maps to no window gives a result of the usual shape and no
  exception: \<open>domReplace\<close> returns zero targets, zero applications, \<open>failed\<close> equal to the
  number of mutations and one detail with \<open>matched = 0\<close>, \<open>applied = 0\<close> per mutation;
  \<open>updateWindowTitle\<close> returns \<open>updated\<close>; both leave the store as it was.
\<close>

theorem unknown_window_soft_fail:
  assumes "windowIdToNodeId st windowId = None"
  shows "fst (domReplace D st windowId mutations) =
           \<lparr>dr_status = ''edited'', dr_windowId = windowId, dr_html = [],
            totals = \<lparr>totalMutations = length mutations, totalTargets = 0, totalApplied = 0,
                       failed = length mutations\<rparr>,
            details = map (\<lambda>m. \<lparr>d_action = action m, d_selector = selector m, matched = 0,
                                  applied = 0, d_error = None\<rparr>) mutations\<rparr>
       \<and> snd (domReplace D st windowId mutations) = st
       \<and> updateWindowTitle st windowId newTitle =
           (\<lparr>ut_status = ''updated'', ut_windowId = windowId, ut_title = newTitle\<rparr>, st)"
  using assms by (simp add: domReplace_def updateWindowTitle_def)

theorem unknown_window_soft_fail_witness:
  "windowIdToNodeId sample_host ''w9'' = None
   \<and> totals (fst (domReplace sample_dom sample_host ''w9'' [Remove_el ''p'', Set_text ''p'' ''x'']))
       = \<lparr>totalMutations = 2, totalTargets = 0, totalApplied = 0, failed = 2\<rparr>
   \<and> map applied (details (fst (domReplace sample_dom sample_host ''w9'' [Remove_el ''p'', Set_text ''p'' ''x'']))) = [0, 0]
   \<and> snd (domReplace sample_dom sample_host ''w9'' [Remove_el ''p'', Set_text ''p'' ''x'']) = sample_host
   \<and> updateWindowTitle sample_host ''w9'' ''T'' =
        (\<lparr>ut_status = ''updated'', ut_windowId = ''w9'', ut_title = ''T''\<rparr>, sample_host)"
proof -
  have h: "windowIdToNodeId sample_host ''w9'' = None"
    by (simp add: sample_host_def empty_host_def)
  show ?thesis
    using h unknown_window_soft_fail [OF h, of sample_dom "[Remove_el ''p'', Set_text ''p'' ''x'']" "''T''"]
    by simp
qed

subsection \<open>An empty mutation list\<close>

lemma domReplace_nodes_empty_fst:
  "fst (domReplace_nodes D st nodeId [] nds acc) =
     map (\<lambda>n. if nid n \<noteq> nodeId then n else n\<lparr>html := normalised_html D st n\<rparr>) nds"
proof (induction nds arbitrary: acc)
  case Nil
  then show ?case by simp
next
  case (Cons n nds)
  obtain ds tt ta fin where acc: "acc = (ds, tt, ta, fin)" by (cases acc) auto
  show ?case
    by (simp add: acc Let_def normalised_html_def current_document_def case_prod_beta Cons.IH)
qed

lemma domReplace_nodes_empty_snd:
  "domReplace_nodes D st nodeId [] nds ([], tt, ta, fin) = (nds', ds', tt', ta', fin')
     \<Longrightarrow> ds' = [] \<and> tt' = tt \<and> ta' = ta"
proof (induction nds arbitrary: fin nds')
  case Nil
  then show ?case by simp
next
  case (Cons n nds)
  show ?case
  proof (cases "nid n = nodeId")
    case True
    with Cons.prems Cons.IH show ?thesis
      by (auto simp: Let_def split: prod.splits)
  next
    case False
    with Cons.prems Cons.IH show ?thesis
      by (auto split: prod.splits)
  qed
qed

text \<open>
  C9, as the claim states it, at a concrete window: the stored markup is \<open><p>hi</p>\<close>,
  the mutation list is empty, the totals are all zero, and the stored markup after the
  call is a different text.
\<close>

theorem empty_mutation_list_changes_text:
  "windowIdToNodeId sample_host ''w1'' = Some ''n1''
   \<and> map html (nodes sample_host) = [''<p>hi</p>'']
   \<and> totals (fst (domReplace sample_dom sample_host ''w1'' [])) =
        \<lparr>totalMutations = 0, totalTargets = 0, totalApplied = 0, failed = 0\<rparr>
   \<and> map html (nodes (snd (domReplace sample_dom sample_host ''w1'' []))) = [''<!DOCTYPE html><p>hi</p>'']"
  by (simp add: domReplace_def sample_host_def empty_host_def sample_node_def sample_dom_def
      Let_def getLiveIframeHtml_def serialize_def doctype_def failed_count_def)

text \<open>
  C9, amended. For every existing window, \<open>domReplace\<close> with an empty mutation list
  returns the totals 0, 0, 0, 0 and no detail, and it replaces the stored markup of the
  window's node by \<open><!DOCTYPE html>\<close> followed by the serialisation of the parsed current
  markup (the live markup of the frame, else the stored markup, else the blank document);
  the other nodes keep theirs. The stored text is the same afterwards only when it is
  already in that serialised form.
\<close>

theorem empty_mutation_list_renormalises:
  assumes "windowIdToNodeId st windowId = Some nodeId" and "nodeId \<noteq> []"
  shows "totals (fst (domReplace D st windowId [])) =
           \<lparr>totalMutations = 0, totalTargets = 0, totalApplied = 0, failed = 0\<rparr>
       \<and> details (fst (domReplace D st windowId [])) = []
       \<and> nodes (snd (domReplace D st windowId [])) =
           map (\<lambda>n. if nid n \<noteq> nodeId then n
                     else n\<lparr>html := normalised_html D (st\<lparr>iframeUpdateQueue := iframeUpdateQueue st - {nodeId}\<rparr>) n\<rparr>) (nodes st)
       \<and> (\<forall>n. take 15 (normalised_html D st n) = ''<!DOCTYPE html>'')"
proof -
  let ?st1 = "st\<lparr>iframeUpdateQueue := iframeUpdateQueue st - {nodeId}\<rparr>"
  obtain nds' ds' tt' ta' fin' where
    r: "domReplace_nodes D ?st1 nodeId [] (nodes st) ([], 0, 0, []) = (nds', ds', tt', ta', fin')"
    by (metis prod_cases5)
  from domReplace_nodes_empty_snd [OF r] have z: "ds' = []" "tt' = 0" "ta' = 0" by auto
  have f: "nds' = map (\<lambda>n. if nid n \<noteq> nodeId then n else n\<lparr>html := normalised_html D ?st1 n\<rparr>) (nodes st)"
    using domReplace_nodes_empty_fst [of D ?st1 nodeId "nodes st" "([], 0, 0, [])"] r by simp
  have d: "\<forall>n. take 15 (normalised_html D st n) = ''<!DOCTYPE html>''"
    by (simp add: normalised_html_def serialize_def doctype_def)
  show ?thesis
    using assms r z f d by (auto simp: domReplace_def Let_def failed_count_def)
qed

theorem empty_mutation_list_renormalises_witness:
  "windowIdToNodeId sample_host ''w1'' = Some ''n1'' \<and> ''n1'' \<noteq> []
   \<and> totals (fst (domReplace sample_dom sample_host ''w1'' [])) =
           \<lparr>totalMutations = 0, totalTargets = 0, totalApplied = 0, failed = 0\<rparr>
   \<and> details (fst (domReplace sample_dom sample_host ''w1'' [])) = []
   \<and> map html (nodes (snd (domReplace sample_dom sample_host ''w1'' []))) = [''<!DOCTYPE html><p>hi</p>'']"
proof -
  have h1: "windowIdToNodeId sample_host ''w1'' = Some ''n1''"
    by (simp add: sample_host_def empty_host_def)
  have h2: "''n1'' \<noteq> []" by simp
  have n: "nodes sample_host = [sample_node]" by (simp add: sample_host_def empty_host_def)
  have v: "normalised_html sample_dom (sample_host\<lparr>iframeUpdateQueue := iframeUpdateQueue sample_host - {''n1''}\<rparr>) sample_node
             = ''<!DOCTYPE html><p>hi</p>''"
    by (simp add: normalised_html_def current_document_def sample_host_def empty_host_def
        sample_node_def sample_dom_def getLiveIframeHtml_def serialize_def doctype_def)
  have i: "nid sample_node = ''n1''" by (simp add: sample_node_def)
  show ?thesis
    using h1 empty_mutation_list_renormalises [OF h1 h2, of sample_dom] n v i by simp
qed


subsection \<open>createNewWindow\<close>

lemma show_nat_digit: "n < 10 \<Longrightarrow> show_nat n = [digit_char n]"
  by (subst show_nat.simps) simp

lemma unique_name_free: "names c = None \<Longrightarrow> unique_name names name c k = Some c"
  by (subst unique_name.simps) simp

lemma unique_name_taken:
  "names c \<noteq> None \<Longrightarrow>
   unique_name names name c k = unique_name names name (name @ '' ('' @ show_nat k @ '')'') (k + 1)"
  by (subst unique_name.simps) simp

lemma fresh_windowId_free:
  "ids (''w'' @ rnd k) = None \<Longrightarrow> fresh_windowId rnd ids k = Some (''w'' @ rnd k, k + 1)"
  by (subst fresh_windowId.simps) simp

lemma fresh_windowId_taken:
  "ids (''w'' @ rnd k) \<noteq> None \<Longrightarrow> fresh_windowId rnd ids k = fresh_windowId rnd ids (k + 1)"
  by (subst fresh_windowId.simps) simp

lemma fresh_windowId_unregistered_aux:
  assumes "fresh_windowId rnd ids k = Some y"
  shows "ids (fst y) = None"
  by (rule fresh_windowId.raw_induct [where P = "\<lambda>rnd ids k y. ids (fst y) = None", OF _ assms])
     (auto split: if_splits)

lemma fresh_windowId_unregistered:
  "fresh_windowId rnd ids k = Some (w, k') \<Longrightarrow> ids w = None"
  using fresh_windowId_unregistered_aux by fastforce

lemma fresh_windowId_returns:
  "ids (''w'' @ rnd (k + j)) = None \<Longrightarrow> \<exists>w k'. fresh_windowId rnd ids k = Some (w, k')"
proof (induction j arbitrary: k)
  case 0
  then show ?case by (simp add: fresh_windowId_free)
next
  case (Suc j)
  show ?case
  proof (cases "ids (''w'' @ rnd k) = None")
    case True
    then show ?thesis by (simp add: fresh_windowId_free)
  next
    case False
    from Suc.prems have "ids (''w'' @ rnd (Suc k + j)) = None" by simp
    from Suc.IH [of "Suc k"] this show ?thesis using False by (simp add: fresh_windowId_taken)
  qed
qed


lemma createNewWindow_ids:
  assumes "createNewWindow P st name markup = Some (res, st')"
  shows "windowIdToNodeId st (cr_windowId res) = None
       \<and> windowIdToNodeId st' = (windowIdToNodeId st)(cr_windowId res \<mapsto> cr_nodeId res)"
proof -
  from assms obtain fName where u: "unique_name (nameToNodeId st) name (js_trim name) 2 = Some fName"
    by (auto simp: createNewWindow_def split: option.splits)
  from assms u obtain w k where
    f: "fresh_windowId (random36 P) (windowIdToNodeId st) (draws st) = Some (w, k)"
    by (auto simp: createNewWindow_def split: option.splits)
  have fresh: "windowIdToNodeId st w = None"
    using fresh_windowId_unregistered [OF f] .
  show ?thesis
    using assms u f fresh
    by (auto simp: createNewWindow_def Let_def split: option.splits if_splits)
qed

text \<open>
  C10. Every call of \<open>createNewWindow\<close> that returns gives a \<open>windowId\<close> that was not
  registered before the call. The call registers it for the node of the new window and
  leaves every other entry of \<open>windowIdToNodeId\<close> as it was, so an id that belongs to one
  window is never given to another.
\<close>

theorem createNewWindow_fresh_id:
  assumes "createNewWindow P st name markup = Some (res, st')"
  shows "windowIdToNodeId st (cr_windowId res) = None
       \<and> windowIdToNodeId st' (cr_windowId res) = Some (cr_nodeId res)
       \<and> (\<forall>w. w \<noteq> cr_windowId res \<longrightarrow> windowIdToNodeId st' w = windowIdToNodeId st w)"
  using createNewWindow_ids [OF assms] by simp

lemma sample_random36: "random36 sample_platform k = replicate k (CHR ''a'')"
  by (simp add: sample_platform_def)

lemma js_trim_Notes: "js_trim ''Notes'' = ''Notes''"
  by (simp add: js_trim_def js_space_def)


lemma show_nat_2: "show_nat 2 = ''2''"
  by (simp add: show_nat_digit digit_char_def)

text \<open>
  C7, as the claim states it, at a concrete session: no window is named \<open>Notes\<close>, a
  window named \<open>Notes (2)\<close> exists, and the second of two calls with \<open>Notes\<close> returns
  \<open>Notes (3)\<close>.
\<close>

theorem second_name_not_always_2:
  "nameToNodeId notes2_host ''Notes'' = None
   \<and> create_twice sample_platform notes2_host ''Notes'' ''<p>a</p>'' ''<p>b</p>''
       = Some (''Notes'', ''Notes (3)'')"
  by (simp add: create_twice_def createNewWindow_def notes2_host_def empty_host_def
      js_trim_Notes unique_name_free unique_name_taken fresh_windowId_free sample_random36
      show_nat_digit digit_char_def Let_def split: option.splits)


lemma createNewWindow_returns:
  assumes u: "unique_name (nameToNodeId st) name (js_trim name) 2 = Some fName"
    and f: "fresh_windowId (random36 P) (windowIdToNodeId st) (draws st) = Some (w, k)"
  shows "\<exists>res st'. createNewWindow P st name markup = Some (res, st')
           \<and> finalName res = fName \<and> cr_windowId res = w
           \<and> nameToNodeId st' = (nameToNodeId st)(fName \<mapsto> cr_nodeId res)
           \<and> windowIdToNodeId st' = (windowIdToNodeId st)(w \<mapsto> cr_nodeId res)"
  using u f by (auto simp: createNewWindow_def Let_def split: option.splits)

lemma random_source_ok_returns:
  assumes "random_source_ok P ids"
  shows "\<exists>w' k'. fresh_windowId (random36 P) (ids(w \<mapsto> n)) k = Some (w', k')"
    and "\<exists>w' k'. fresh_windowId (random36 P) ids k = Some (w', k')"
proof -
  from assms obtain j where j: "(ids(w \<mapsto> n)) (''w'' @ random36 P (k + j)) = None"
    unfolding random_source_ok_def by blast
  from fresh_windowId_returns [of "ids(w \<mapsto> n)" "random36 P" k j] j
  show "\<exists>w' k'. fresh_windowId (random36 P) (ids(w \<mapsto> n)) k = Some (w', k')" by blast
  from j have "ids (''w'' @ random36 P (k + j)) = None"
    by (auto split: if_splits)
  with fresh_windowId_returns [of ids "random36 P" k j]
  show "\<exists>w' k'. fresh_windowId (random36 P) ids k = Some (w', k')" .
qed

text \<open>
  C7, amended. In a session with no window named \<open>Notes\<close> and none named \<open>Notes (2)\<close>,
  and with a random source that keeps offering unregistered ids, two successive calls
  \<open>createNewWindow("Notes", \<dots>)\<close> both return, with \<open>finalName\<close> equal to \<open>Notes\<close> and then
  to \<open>Notes (2)\<close>: the second call finds \<open>Notes\<close> taken and appends the suffix that starts
  at 2.
\<close>

theorem two_creates_Notes:
  assumes n1: "nameToNodeId st ''Notes'' = None"
    and n2: "nameToNodeId st ''Notes (2)'' = None"
    and rnd: "random_source_ok P (windowIdToNodeId st)"
  shows "create_twice P st ''Notes'' markup1 markup2 = Some (''Notes'', ''Notes (2)'')"
proof -
  have u1: "unique_name (nameToNodeId st) ''Notes'' (js_trim ''Notes'') 2 = Some ''Notes''"
    using n1 by (simp add: js_trim_Notes unique_name_free)
  from random_source_ok_returns(2) [OF rnd] obtain w1 k1 where
    f1: "fresh_windowId (random36 P) (windowIdToNodeId st) (draws st) = Some (w1, k1)"
    by blast
  from createNewWindow_returns [OF u1 f1, of markup1] obtain r1 st1 where
    c1: "createNewWindow P st ''Notes'' markup1 = Some (r1, st1)"
    and fn1: "finalName r1 = ''Notes''"
    and names1: "nameToNodeId st1 = (nameToNodeId st)(''Notes'' \<mapsto> cr_nodeId r1)"
    and ids1: "windowIdToNodeId st1 = (windowIdToNodeId st)(w1 \<mapsto> cr_nodeId r1)"
    by blast
  have u2: "unique_name (nameToNodeId st1) ''Notes'' (js_trim ''Notes'') 2 = Some ''Notes (2)''"
    using n2 by (simp add: names1 js_trim_Notes unique_name_taken unique_name_free
        show_nat_digit digit_char_def)
  from random_source_ok_returns(1) [OF rnd, of w1 "cr_nodeId r1" "draws st1"] obtain w2 k2 where
    f2: "fresh_windowId (random36 P) (windowIdToNodeId st1) (draws st1) = Some (w2, k2)"
    using ids1 by auto
  from createNewWindow_returns [OF u2 f2, of markup2] obtain r2 st2 where
    c2: "createNewWindow P st1 ''Notes'' markup2 = Some (r2, st2)"
    and fn2: "finalName r2 = ''Notes (2)''"
    by blast
  show ?thesis
    by (simp add: create_twice_def c1 c2 fn1 fn2)
qed

lemma sample_random_source_ok: "random_source_ok sample_platform Map.empty"
  unfolding random_source_ok_def
proof (intro allI)
  fix k :: nat and w n :: string
  show "\<exists>j. (Map.empty(w \<mapsto> n)) (''w'' @ random36 sample_platform (k + j)) = None"
  proof (cases "w = ''w'' @ replicate k (CHR ''a'')")
    case True
    then have "length w = Suc k" by simp
    then have "w \<noteq> ''w'' @ replicate (k + 1) (CHR ''a'')" by auto
    then show ?thesis by (intro exI [of _ 1]) (simp add: sample_random36)
  next
    case False
    then show ?thesis by (intro exI [of _ 0]) (simp add: sample_random36)
  qed
qed

theorem two_creates_Notes_witness:
  "nameToNodeId empty_host ''Notes'' = None \<and> nameToNodeId empty_host ''Notes (2)'' = None
   \<and> random_source_ok sample_platform (windowIdToNodeId empty_host)
   \<and> create_twice sample_platform empty_host ''Notes'' ''<p>a</p>'' ''<p>b</p>''
       = Some (''Notes'', ''Notes (2)'')"
proof -
  have h1: "nameToNodeId empty_host ''Notes'' = None" by (simp add: empty_host_def)
  have h2: "nameToNodeId empty_host ''Notes (2)'' = None" by (simp add: empty_host_def)
  have h3: "random_source_ok sample_platform (windowIdToNodeId empty_host)"
    using sample_random_source_ok by (simp add: empty_host_def)
  show ?thesis
    using h1 h2 h3 two_creates_Notes [OF h1 h2 h3, of "''<p>a</p>''" "''<p>b</p>''"] by simp
qed

text \<open>
  The theorem of C10 at a store where the first id drawn, \<open>wa\<close>, is taken: the call draws
  again and returns \<open>waa\<close>.
\<close>

theorem createNewWindow_fresh_id_witness:
  "createNewWindow sample_platform busy_host ''Timer'' ''<p>0</p>'' \<noteq> None
   \<and> windowIdToNodeId busy_host ''wa'' = Some ''n1''
   \<and> cr_windowId (fst (the (createNewWindow sample_platform busy_host ''Timer'' ''<p>0</p>''))) = ''waa''
   \<and> windowIdToNodeId busy_host ''waa'' = None
   \<and> windowIdToNodeId (snd (the (createNewWindow sample_platform busy_host ''Timer'' ''<p>0</p>''))) ''wa''
        = Some ''n1''"
proof -
  let ?c = "createNewWindow sample_platform busy_host ''Timer'' ''<p>0</p>''"
  have u: "unique_name (nameToNodeId busy_host) ''Timer'' (js_trim ''Timer'') 2 = Some ''Timer''"
    by (simp add: busy_host_def empty_host_def js_trim_def js_space_def unique_name_free)
  have f: "fresh_windowId (random36 sample_platform) (windowIdToNodeId busy_host) (draws busy_host)
             = Some (''waa'', 3)"
    by (simp add: busy_host_def empty_host_def sample_random36 fresh_windowId_taken
        fresh_windowId_free numeral_2_eq_2)
  from createNewWindow_returns [OF u f, of "''<p>0</p>''"] obtain res st' where
    c: "?c = Some (res, st')" and w: "cr_windowId res = ''waa''" by blast
  have old: "windowIdToNodeId busy_host ''wa'' = Some ''n1''"
    by (simp add: busy_host_def empty_host_def)
  show ?thesis
    using createNewWindow_fresh_id [OF c] c w old by simp
qed


section \<open>Properties of the orchestration loop\<close>

lemma emitted_text_append [simp]: "emitted_text (xs @ ys) = emitted_text xs @ emitted_text ys"
  by (simp add: emitted_text_def)

lemma emitted_text_Nil [simp]: "emitted_text [] = []"
  by (simp add: emitted_text_def)

lemma emitted_text_Cons [simp]: "emitted_text (e # es) = text_of e @ emitted_text es"
  by (simp add: emitted_text_def)

lemma process_tool_delta_events:
  "\<exists>new. snd (process_tool_delta step tc (ts, evs)) = evs @ new
         \<and> emitted_text new = [] \<and> (\<forall>e \<in> set new. \<not> terminal e)"
  by (auto simp: process_tool_delta_def Let_def split: option.splits)

lemma fold_tool_deltas_events:
  "\<exists>new. snd (foldl (\<lambda>a tc. process_tool_delta step tc a) (ts, evs) tcs) = evs @ new
         \<and> emitted_text new = [] \<and> (\<forall>e \<in> set new. \<not> terminal e)"
proof (induction tcs arbitrary: ts evs)
  case Nil
  show ?case by simp
next
  case (Cons tc tcs)
  obtain ts1 evs1 where p: "process_tool_delta step tc (ts, evs) = (ts1, evs1)"
    by (cases "process_tool_delta step tc (ts, evs)") auto
  from process_tool_delta_events [of step tc ts evs] p obtain n1 where
    n1: "evs1 = evs @ n1" "emitted_text n1 = []" "\<forall>e \<in> set n1. \<not> terminal e" by auto
  from Cons.IH [of ts1 evs1] obtain n2 where
    n2: "snd (foldl (\<lambda>a tc. process_tool_delta step tc a) (ts1, evs1) tcs) = evs1 @ n2"
        "emitted_text n2 = []" "\<forall>e \<in> set n2. \<not> terminal e" by auto
  show ?case
    using p n1 n2 by (intro exI [of _ "n1 @ n2"]) auto
qed


lemma process_chunk_events:
  fixes L :: "('s, 'r) agent_state"
  shows "quiet_ext L (snd (process_chunk step ch (V, L)))"
proof -
  define V1 where "V1 = (case content ch of None \<Rightarrow> V
       | Some textDelta \<Rightarrow> if textDelta = [] then V else V\<lparr>stepText := stepText V @ textDelta\<rparr>)"
  define L1 where "L1 = (case content ch of None \<Rightarrow> L
       | Some textDelta \<Rightarrow> if textDelta = [] then L
           else L\<lparr>finalTextForAllSteps := finalTextForAllSteps L @ textDelta,
                  events := events L @ [Text_delta textDelta]\<rparr>)"
  define n1 where "n1 = (case content ch of None \<Rightarrow> []
       | Some textDelta \<Rightarrow> if textDelta = [] then [] else [Text_delta textDelta :: 'r event])"
  have a1: "events L1 = events L @ n1" "finalTextForAllSteps L1 = finalTextForAllSteps L @ emitted_text n1"
    "\<forall>e \<in> set n1. \<not> terminal e" "textDeferred L1 = textDeferred L" "requests L1 = requests L"
    by (auto simp: L1_def n1_def split: option.splits)
  define L2 where "L2 = (case tool_calls ch of None \<Rightarrow> L1
       | Some tcs \<Rightarrow> L1\<lparr>events := snd (foldl (\<lambda>a tc. process_tool_delta step tc a)
                                           (toolState V1, events L1) tcs)\<rparr>)"
  have "\<exists>n2. events L2 = events L1 @ n2 \<and> emitted_text n2 = [] \<and> (\<forall>e \<in> set n2. \<not> terminal e)"
  proof (cases "tool_calls ch")
    case None
    then show ?thesis by (simp add: L2_def)
  next
    case (Some tcs)
    with fold_tool_deltas_events [of step "toolState V1" "events L1" tcs]
    show ?thesis by (simp add: L2_def)
  qed
  then obtain n2 where a2: "events L2 = events L1 @ n2" "emitted_text n2 = []"
    "\<forall>e \<in> set n2. \<not> terminal e" by blast
  have b2: "finalTextForAllSteps L2 = finalTextForAllSteps L1" "textDeferred L2 = textDeferred L1"
    "requests L2 = requests L1"
    by (auto simp: L2_def split: option.splits)
  have p: "snd (process_chunk step ch (V, L)) = L2"
    by (simp add: process_chunk_def L2_def L1_def V1_def Let_def case_prod_beta
        split: option.splits)
  show ?thesis
    unfolding p quiet_ext_def using a1 a2 b2 by (intro exI [of _ "n1 @ n2"]) auto
qed

lemma quiet_ext_refl: "quiet_ext L L"
  by (simp add: quiet_ext_def)

lemma quiet_ext_trans: "quiet_ext L L' \<Longrightarrow> quiet_ext L' L'' \<Longrightarrow> quiet_ext L L''"
  unfolding quiet_ext_def
proof -
  assume "\<exists>new. events L' = events L @ new
           \<and> finalTextForAllSteps L' = finalTextForAllSteps L @ emitted_text new
           \<and> (\<forall>e \<in> set new. \<not> terminal e)
           \<and> textDeferred L' = textDeferred L \<and> requests L' = requests L"
  then obtain n1 where 1: "events L' = events L @ n1"
    "finalTextForAllSteps L' = finalTextForAllSteps L @ emitted_text n1"
    "\<forall>e \<in> set n1. \<not> terminal e" "textDeferred L' = textDeferred L" "requests L' = requests L"
    by blast
  assume "\<exists>new. events L'' = events L' @ new
           \<and> finalTextForAllSteps L'' = finalTextForAllSteps L' @ emitted_text new
           \<and> (\<forall>e \<in> set new. \<not> terminal e)
           \<and> textDeferred L'' = textDeferred L' \<and> requests L'' = requests L'"
  then obtain n2 where 2: "events L'' = events L' @ n2"
    "finalTextForAllSteps L'' = finalTextForAllSteps L' @ emitted_text n2"
    "\<forall>e \<in> set n2. \<not> terminal e" "textDeferred L'' = textDeferred L'" "requests L'' = requests L'"
    by blast
  show "\<exists>new. events L'' = events L @ new
           \<and> finalTextForAllSteps L'' = finalTextForAllSteps L @ emitted_text new
           \<and> (\<forall>e \<in> set new. \<not> terminal e)
           \<and> textDeferred L'' = textDeferred L \<and> requests L'' = requests L"
    using 1 2 by (intro exI [of _ "n1 @ n2"]) auto
qed

lemma running_quiet_ext: "running L \<Longrightarrow> quiet_ext L L' \<Longrightarrow> running L'"
  by (auto simp: running_def quiet_ext_def)

lemma fold_chunks_quiet:
  "quiet_ext L (snd (foldl (\<lambda>a ch. process_chunk step ch a) (V, L) chs))"
proof (induction chs arbitrary: V L)
  case Nil
  show ?case by (simp add: quiet_ext_refl)
next
  case (Cons ch chs)
  obtain V1 L1 where p: "process_chunk step ch (V, L) = (V1, L1)"
    by (cases "process_chunk step ch (V, L)") auto
  have "quiet_ext L L1" using process_chunk_events [of L step ch V] p by simp
  moreover have "quiet_ext L1 (snd (foldl (\<lambda>a ch. process_chunk step ch a) (V1, L1) chs))"
    by (rule Cons.IH)
  ultimately show ?case using p by (simp add: quiet_ext_trans)
qed

lemma update_last_usage_quiet: "quiet_ext L (update_last_usage u L)"
  by (simp add: update_last_usage_def quiet_ext_def Let_def split: option.splits)

lemma execute_calls_quiet:
  "execute_calls E calls L ac tm = Inr (L', ac', tm') \<Longrightarrow> quiet_ext L L'"
proof (induction calls arbitrary: L ac tm)
  case Nil
  then show ?case by (simp add: quiet_ext_refl)
next
  case (Cons call calls)
  let ?name = "case ts_name call of None \<Rightarrow> [] | Some n \<Rightarrow> n"
  let ?args = "parse_args E (argsText call)"
  obtain out s' where d: "dispatch_tool E ?name ?args (tool_store L) = (out, s')"
    by (cases "dispatch_tool E ?name ?args (tool_store L)") auto
  show ?case
  proof (cases out)
    case (Inl err)
    with Cons.prems d show ?thesis by (simp add: Let_def)
  next
    case (Inr result)
    let ?L1 = "L\<lparr>tool_store := s',
                  aggregatedToolResults := aggregatedToolResults L @ [(ts_id call, ?name, result)],
                  events := events L @ [Tool_result (ts_id call) ?name result]\<rparr>"
    have q1: "quiet_ext L ?L1"
      unfolding quiet_ext_def
      by (intro exI [of _ "[Tool_result (ts_id call) ?name result]"]) simp
    from Cons.prems d Inr have
      "execute_calls E calls ?L1 (ac @ [(ts_id call, ?name, stringify_args E ?args)])
         (tm @ [Tool_message (ts_id call) (stringify_result E result)]) = Inr (L', ac', tm')"
      by (simp add: Let_def)
    from Cons.IH [OF this] q1 show ?thesis by (rule quiet_ext_trans [rotated])
  qed
qed

lemma execute_calls_thrown_requests:
  "execute_calls E calls L ac tm = Inl (err, L') \<Longrightarrow> requests L' = requests L"
proof (induction calls arbitrary: L ac tm)
  case Nil
  then show ?case by simp
next
  case (Cons call calls)
  let ?name = "case ts_name call of None \<Rightarrow> [] | Some n \<Rightarrow> n"
  let ?args = "parse_args E (argsText call)"
  obtain out s' where d: "dispatch_tool E ?name ?args (tool_store L) = (out, s')"
    by (cases "dispatch_tool E ?name ?args (tool_store L)") auto
  show ?case
  proof (cases out)
    case (Inl e)
    with Cons.prems d show ?thesis by (auto simp: Let_def)
  next
    case (Inr result)
    with Cons.prems d have
      "execute_calls E calls
         (L\<lparr>tool_store := s',
            aggregatedToolResults := aggregatedToolResults L @ [(ts_id call, ?name, result)],
            events := events L @ [Tool_result (ts_id call) ?name result]\<rparr>)
         (ac @ [(ts_id call, ?name, stringify_args E ?args)])
         (tm @ [Tool_message (ts_id call) (stringify_result E result)]) = Inl (err, L')"
      by (simp add: Let_def)
    from Cons.IH [OF this] show ?thesis by simp
  qed
qed

lemma run_step_requests:
  "run_step E step L = r \<Longrightarrow>
   (case r of Thrown e L' \<Rightarrow> length (requests L') = Suc (length (requests L))
            | Break L' \<Rightarrow> length (requests L') = Suc (length (requests L))
                           \<and> Finish ''stop'' \<in> set (events L')
            | Next_step L' \<Rightarrow> length (requests L') = Suc (length (requests L))
                           \<and> (running L \<longrightarrow> running L'))"
proof -
  assume r: "run_step E step L = r"
  let ?L0 = "L\<lparr>requests := requests L @ [messagesParam L]\<rparr>"
  have q0: "running L \<Longrightarrow> running ?L0" by (simp add: running_def)
  show ?thesis
  proof (cases "client_create E step (messagesParam L)")
    case (Inl err)
    with r show ?thesis by (auto simp: run_step_def Let_def)
  next
    case (Inr stream)
    obtain V L1 where f: "foldl (\<lambda>a ch. process_chunk step ch a)
        (\<lparr>toolState = [], stepText = [], stepUsageFromChunks = None\<rparr>, ?L0) (chunks stream) = (V, L1)"
      by (metis surj_pair)
    have q1: "quiet_ext ?L0 L1"
      using fold_chunks_quiet [of ?L0 step "\<lparr>toolState = [], stepText = [], stepUsageFromChunks = None\<rparr>" "chunks stream"] f
      by simp
    then have len1: "length (requests L1) = Suc (length (requests L))"
      by (auto simp: quiet_ext_def)
    show ?thesis
    proof (cases "stream_error stream")
      case (Some err)
      with r Inr f len1 show ?thesis by (auto simp: run_step_def Let_def)
    next
      case None
      let ?u = "case final_usage stream of Some u \<Rightarrow> Some u | None \<Rightarrow> stepUsageFromChunks V"
      let ?L2 = "update_last_usage ?u L1"
      let ?calls = "filter (\<lambda>t. ts_name t \<noteq> None \<and> ts_name t \<noteq> Some []) (map snd (toolState V))"
      have q2: "quiet_ext ?L0 ?L2"
        using q1 update_last_usage_quiet by (rule quiet_ext_trans)
      then have len2: "length (requests ?L2) = Suc (length (requests L))"
        by (auto simp: quiet_ext_def)
      show ?thesis
      proof (cases "?calls = []")
        case True
        with r Inr f None len2 show ?thesis
          by (auto simp: run_step_def Let_def resolve_usage_def)
      next
        case False
        show ?thesis
        proof (cases "execute_calls E ?calls ?L2 [] []")
          case (Inl a)
          obtain err L3 where a: "a = (err, L3)" by (cases a) auto
          have "length (requests L3) = Suc (length (requests L))"
            using execute_calls_thrown_requests [of E ?calls ?L2 "[]" "[]" err L3] Inl a len2
            by simp
          with r Inr f None False Inl a show ?thesis
            by (auto simp: run_step_def Let_def)
        next
          case (Inr b)
          obtain L3 ac tm where b: "b = (L3, ac, tm)" by (cases b) auto
          from execute_calls_quiet Inr b have q3: "quiet_ext ?L2 L3" by blast
          with q2 have q03: "quiet_ext ?L0 L3" by (rule quiet_ext_trans)
          then have len3: "length (requests L3) = Suc (length (requests L))"
            by (auto simp: quiet_ext_def)
          let ?L4 = "L3\<lparr>messagesParam := messagesParam L3 @ [Assistant_tool_calls ac] @ tm,
                         events := events L3 @ [Finish_step]\<rparr>"
          have "quiet_ext L3 ?L4"
            unfolding quiet_ext_def by (intro exI [of _ "[Finish_step]"]) simp
          with q03 have q4: "quiet_ext ?L0 ?L4" by (rule quiet_ext_trans)
          have res: "r = Next_step ?L4"
            using r \<open>client_create E step (messagesParam L) = Inr stream\<close> f None False Inr b
            by (simp add: run_step_def Let_def)
          show ?thesis
            using res len3 q4 q0 running_quiet_ext by auto
        qed
      qed
    qed
  qed
qed


lemma run_steps_invariant:
  "length (requests L) = step \<Longrightarrow> step \<le> 12 \<Longrightarrow>
   (case run_steps E step L of
      Thrown e L' \<Rightarrow> length (requests L') \<le> 12
    | Break L' \<Rightarrow> length (requests L') \<le> 12 \<and> Finish ''stop'' \<in> set (events L')
    | Next_step L' \<Rightarrow> length (requests L') = 12 \<and> (running L \<longrightarrow> running L'))"
proof (induction E step L rule: run_steps.induct)
  case (1 E step L)
  show ?case
  proof (cases "step < 12")
    case False
    then have "run_steps E step L = Next_step L"
      by (subst run_steps.simps) simp
    with False 1(2,3) show ?thesis by simp
  next
    case True
    note rs = run_step_requests [where E = E and step = step and L = L, OF refl]
    show ?thesis
    proof (cases "run_step E step L")
      case (Thrown e L')
      with rs True 1(2) show ?thesis by (simp add: run_steps.simps [of E step L])
    next
      case (Break L')
      with rs True 1(2) show ?thesis by (simp add: run_steps.simps [of E step L])
    next
      case (Next_step L')
      from rs Next_step have l: "length (requests L') = step + 1" and r: "running L \<longrightarrow> running L'"
        using 1(2) by auto
      from True have s: "step + 1 \<le> 12" by simp
      have eq: "run_steps E step L = run_steps E (step + 1) L'"
        using True Next_step by (simp add: run_steps.simps [of E step L])
      from 1(1) [OF True Next_step l s] r show ?thesis
        unfolding eq by (auto split: step_end.splits)
    qed
  qed
qed

text \<open>
  C3. The loop sends at most 12 requests to the transport. When the run yields no
  \<open>finish\<close> event with reason \<open>stop\<close> and no \<open>error\<close> event, that is, when every step
  it executed produced tool calls and nothing threw, it executed all 12 steps, its last
  event is the \<open>finish\<close> event with reason \<open>length\<close>, and the text promise holds the
  concatenation of all text deltas yielded over all steps (the empty string when there
  were none).
\<close>

theorem step_budget_exhausted:
  fixes E :: "('a, 's, 'r) agent_env"
  shows "length (requests (runAgentStream E base s)) \<le> 12
   \<and> ((\<forall>e \<in> set (events (runAgentStream E base s)). e \<noteq> Finish ''stop'' \<and> \<not> is_error e) \<longrightarrow>
        length (requests (runAgentStream E base s)) = 12
        \<and> last (events (runAgentStream E base s)) = Finish ''length''
        \<and> textDeferred (runAgentStream E base s)
            = Some (emitted_text (events (runAgentStream E base s))))"
proof -
  let ?L0 = "initial_agent_state base s :: ('s, 'r) agent_state"
  have r0: "running ?L0" and l0: "length (requests ?L0) = 0"
    by (simp_all add: running_def initial_agent_state_def)
  note inv = run_steps_invariant [OF l0, of E, simplified]
  show ?thesis
  proof (cases "run_steps E 0 ?L0")
    case (Thrown e L')
    with inv show ?thesis
      by (auto simp: runAgentStream_def catch_block_def)
  next
    case (Break L')
    with inv show ?thesis
      by (auto simp: runAgentStream_def after_loop_def resolve_usage_def Let_def)
  next
    case (Next_step L')
    with inv r0 have "running L'" and "length (requests L') = 12" by auto
    with Next_step show ?thesis
      by (auto simp: runAgentStream_def after_loop_def resolve_usage_def Let_def running_def
          resolve_def)
  qed
qed


text \<open>
  The theorem at a transport that asks for a tool call in every step: twelve steps run,
  the run ends with the \<open>finish\<close> event of reason \<open>length\<close>, and the text promise holds
  the twelve deltas.
\<close>

theorem step_budget_exhausted_witness:
  "events (runAgentStream looping_env [Plain_message ''user'' ''hello''] 0)
     = concat (replicate 12 [Text_delta ''a'', Tool_call ''create_new_window'' ''c'',
         Tool_input_delta (Some ''create_new_window'') ''c'' ''{}'',
         Tool_result ''c'' ''create_new_window'' ''created'', Finish_step]) @ [Finish ''length'']
   \<and> length (requests (runAgentStream looping_env [Plain_message ''user'' ''hello''] 0)) = 12
   \<and> last (events (runAgentStream looping_env [Plain_message ''user'' ''hello''] 0)) = Finish ''length''
   \<and> textDeferred (runAgentStream looping_env [Plain_message ''user'' ''hello''] 0)
       = Some ''aaaaaaaaaaaa''"
proof -
  let ?R = "runAgentStream looping_env [Plain_message ''user'' ''hello''] 0"
  have ev: "events ?R
     = concat (replicate 12 [Text_delta ''a'', Tool_call ''create_new_window'' ''c'',
         Tool_input_delta (Some ''create_new_window'') ''c'' ''{}'',
         Tool_result ''c'' ''create_new_window'' ''created'', Finish_step]) @ [Finish ''length'']"
    by code_simp
  have hyp: "\<forall>e \<in> set (events ?R). e \<noteq> Finish ''stop'' \<and> \<not> is_error e"
    unfolding ev by auto
  have emitted: "emitted_text (events ?R) = ''aaaaaaaaaaaa''"
    unfolding ev by code_simp
  show ?thesis
    using step_budget_exhausted [of looping_env "[Plain_message ''user'' ''hello'']" 0] hyp ev emitted
    by simp
qed

text \<open>
  C4 on the code. The transport answers the first request with the text \<open>hi\<close> and no tool
  call. The step yields the \<open>finish\<close> event of reason \<open>stop\<close> and leaves the loop with
  \<open>break\<close>; the statements after the loop then run as well and yield a second \<open>finish\<close>
  event, of reason \<open>length\<close>. The text promise holds the text of the step.
\<close>

theorem stop_then_length:
  "events (runAgentStream text_only_env [Plain_message ''user'' ''hello''] 0)
     = [Text_delta ''hi'', Finish ''stop'', Finish ''length'']
   \<and> textDeferred (runAgentStream text_only_env [Plain_message ''user'' ''hello''] 0) = Some ''hi''
   \<and> usageDeferred (runAgentStream text_only_env [Plain_message ''user'' ''hello''] 0)
       = Some (Some 0, Some 0)"
  by (simp add: runAgentStream_def run_steps.simps [of _ 0] run_step_def text_only_env_def
      initial_agent_state_def process_chunk_def update_last_usage_def resolve_usage_def
      resolve_def after_loop_def Let_def)


section \<open>Properties of the field extractor\<close>

lemma field_regex_Nil: "field_regex F [] = None"
  by (simp add: field_regex_def Let_def)

lemma field_scan_absent: "\<not> field_occurs F s \<Longrightarrow> field_scan F s off lastIndex = lastIndex"
  by (induction F s off lastIndex rule: field_scan.induct) auto

lemma field_scan_nonneg: "0 \<le> lastIndex \<Longrightarrow> 0 \<le> field_scan F s off lastIndex"
  by (induction F s off lastIndex rule: field_scan.induct) (auto split: option.splits)

lemma field_scan_present: "field_occurs F s \<Longrightarrow> 0 \<le> field_scan F s off lastIndex"
proof (induction F s off lastIndex rule: field_scan.induct)
  case (1 field off lastIndex)
  then show ?case by simp
next
  case (2 field c cs off lastIndex)
  show ?case
  proof (cases "field_regex field (c # cs)")
    case None
    with 2 show ?thesis by simp
  next
    case (Some len)
    then show ?thesis by (simp add: field_scan_nonneg)
  qed
qed

lemma extract_None_iff:
  "extractLatestJsonStringField B F = None \<longleftrightarrow> \<not> field_occurs F B"
proof (cases "field_occurs F B")
  case True
  from field_scan_present [OF this, of 0 "- 1"] show ?thesis
    using True by (simp add: extractLatestJsonStringField_def Let_def)
next
  case False
  from field_scan_absent [OF this, of 0 "- 1"] show ?thesis
    using False by (simp add: extractLatestJsonStringField_def Let_def)
qed

lemma scan_value_unterminated:
  "\<not> closing_quote s \<Longrightarrow> scan_value s out False = out @ complete_pairs s"
proof (induction s arbitrary: out rule: closing_quote.induct)
  case 1
  show ?case by simp
next
  case (2 c)
  then show ?case by simp
next
  case (3 c e cs)
  show ?case
  proof (cases "c = CHR 0x5C")
    case True
    with 3(3) have "\<not> closing_quote cs" by simp
    from 3(1) [OF True this, of "out @ [CHR 0x5C, e]"] True show ?thesis by simp
  next
    case False
    with 3(3) have q: "c \<noteq> CHR 0x22" and n: "\<not> closing_quote (e # cs)"
      by (auto split: if_splits)
    from 3(2) [OF False q n, of "out @ [c]"] False q show ?thesis by simp
  qed
qed

text \<open>
  C1, amended. If the buffer contains the pattern of the field and no unescaped closing
  double quote follows the opening quote of the occurrence the scan ends on, the
  extractor does not return none: it returns the span accumulated up to the end of the
  buffer (every character after the opening quote, a final unpaired backslash left out),
  unescaped. It returns none only when the pattern does not occur (\<open>extract_None_iff\<close>).
\<close>

theorem unterminated_field_returns_span:
  assumes "field_occurs F B" and "\<not> closing_quote (value_text B F)"
  shows "extractLatestJsonStringField B F
           = Some (unescapeJsonString (complete_pairs (value_text B F)))"
proof -
  from field_scan_present [OF assms(1), of 0 "- 1"]
  have "field_scan F B 0 (- 1) \<noteq> - 1" by simp
  then show ?thesis
    using scan_value_unterminated [OF assms(2), of "[]"]
    by (simp add: extractLatestJsonStringField_def Let_def value_text_def)
qed

text \<open>
  C1, as the claim states it, at a concrete buffer: the field \<open>name\<close> has been opened and
  not closed, and the extractor returns the truncated value \<open>Tim\<close>.
\<close>

theorem truncated_value_is_returned:
  "field_occurs ''name'' ''{\"name\":\"Tim''
   \<and> \<not> closing_quote (value_text ''{\"name\":\"Tim'' ''name'')
   \<and> extractLatestJsonStringField ''{\"name\":\"Tim'' ''name'' = Some ''Tim''"
  by code_simp

theorem unterminated_field_returns_span_witness:
  "field_occurs ''html'' ''{\"name\":\"Timer\",\"html\":\"<p>Hi''
   \<and> \<not> closing_quote (value_text ''{\"name\":\"Timer\",\"html\":\"<p>Hi'' ''html'')
   \<and> extractLatestJsonStringField ''{\"name\":\"Timer\",\"html\":\"<p>Hi'' ''html'' = Some ''<p>Hi''"
proof -
  let ?B = "''{\"name\":\"Timer\",\"html\":\"<p>Hi''"
  have h1: "field_occurs ''html'' ?B" by code_simp
  have h2: "\<not> closing_quote (value_text ?B ''html'')" by code_simp
  have v: "unescapeJsonString (complete_pairs (value_text ?B ''html'')) = ''<p>Hi''" by code_simp
  show ?thesis
    using h1 h2 unterminated_field_returns_span [OF h1 h2] v by simp
qed


section \<open>Properties of the markup healer\<close>

subsection \<open>Leftmost matches\<close>







subsection \<open>What the healer keeps of its input\<close>







subsection \<open>The tag scan\<close>























subsection \<open>Unterminated script and style blocks\<close>

















subsection \<open>The healed output\<close>

















subsection \<open>Already valid input\<close>







end
